theory Spec2Isabelle
  imports Complex_Main "HOL-Library.Sublist"
begin

section \<open>JavaScript values and strings\<close>

text \<open>
  Strings are byte strings. White space and letter case are the ASCII ones: a character
  outside ASCII is neither white space nor a letter with a case. A JavaScript number is
  the exact rational it denotes or one of the three special values. The search routes
  compute with integers and with the decimals they read, and there the arithmetic of the
  model is exact, with no rounding to a double; the statistics of the comparison route
  round every result to a double.
\<close>

datatype jsnum = NaN | NegInfinity | Num rat | Infinity

text \<open>A value stored in an object, bound as a query parameter or read from a column of a
  row; \<open>undefined\<close> is \<open>None\<close>.\<close>

datatype jsval = Null | N jsnum | S string

definition is_space :: "char \<Rightarrow> bool" where
  "is_space c = (c \<in> set [CHR '' '', CHR 0x09, CHR 0x0A, CHR 0x0B, CHR 0x0C, CHR 0x0D])"

definition is_digit :: "char \<Rightarrow> bool" where
  "is_digit c = (c \<in> set ''0123456789'')"

text \<open>\<open>s.trim()\<close>\<close>

definition trim :: "string \<Rightarrow> string" where
  "trim s = rev (dropWhile is_space (rev (dropWhile is_space s)))"

text \<open>\<open>s.split(d)\<close> for a one-character separator: the empty string gives one empty piece.\<close>

fun split_on :: "char \<Rightarrow> string \<Rightarrow> string list" where
  "split_on d [] = [[]]"
| "split_on d (c # cs) =
     (let r = split_on d cs in if c = d then [] # r else (c # hd r) # tl r)"

text \<open>\<open>[...new Set(xs)]\<close>: a Set keeps each value at the place of its first insertion.\<close>

definition set_add :: "'a list \<Rightarrow> 'a \<Rightarrow> 'a list" where
  "set_add acc x = (if x \<in> set acc then acc else acc @ [x])"

definition new_Set :: "'a list \<Rightarrow> 'a list" where
  "new_Set xs = foldl set_add [] xs"


section \<open>Reading numbers\<close>

definition digit_value :: "char \<Rightarrow> int" where
  "digit_value c = of_char c - of_char CHR ''0''"

definition decimal :: "string \<Rightarrow> int" where
  "decimal ds = foldl (\<lambda>n c. 10 * n + digit_value c) 0 ds"

definition is_hex_digit :: "char \<Rightarrow> bool" where
  "is_hex_digit c = (c \<in> set ''0123456789abcdefABCDEF'')"

definition hex_value :: "char \<Rightarrow> int" where
  "hex_value c =
     (if is_digit c then digit_value c
      else if c \<in> set ''abcdef'' then of_char c - of_char CHR ''a'' + 10
      else of_char c - of_char CHR ''A'' + 10)"

definition hexadecimal :: "string \<Rightarrow> int" where
  "hexadecimal ds = foldl (\<lambda>n c. 16 * n + hex_value c) 0 ds"

text \<open>The sign that a numeric string starts with, and the string after it.\<close>

definition strip_sign :: "string \<Rightarrow> rat \<times> string" where
  "strip_sign s =
     (case s of
        [] \<Rightarrow> (1, [])
      | c # t \<Rightarrow> if c = CHR ''-'' then (- 1, t) else if c = CHR ''+'' then (1, t) else (1, s))"

text \<open>
  \<open>parseInt(s)\<close> with no radix: leading white space is skipped, a sign is read,
  \<open>0x\<close> or \<open>0X\<close> selects base 16, and the longest run of digits is the value; no digit
  gives \<open>NaN\<close>.
\<close>

definition parseInt :: "string \<Rightarrow> jsnum" where
  "parseInt s =
     (let (sign, t) = strip_sign (dropWhile is_space s) in
      if prefix ''0x'' t \<or> prefix ''0X'' t
      then (let ds = takeWhile is_hex_digit (drop 2 t)
            in if ds = [] then NaN else Num (sign * of_int (hexadecimal ds)))
      else (let ds = takeWhile is_digit t
            in if ds = [] then NaN else Num (sign * of_int (decimal ds))))"

text \<open>
  \<open>parseFloat(s)\<close>: leading white space is skipped and the longest prefix that is a
  decimal literal is the value: a sign, then \<open>Infinity\<close> or digits with an optional
  fraction and an optional exponent; an exponent without digits is not part of the literal.
\<close>

definition exponent :: "string \<Rightarrow> int" where
  "exponent s =
     (case s of
        [] \<Rightarrow> 0
      | c # t \<Rightarrow>
          if c = CHR ''e'' \<or> c = CHR ''E''
          then (let neg = prefix ''-'' t;
                    u = (if prefix ''-'' t \<or> prefix ''+'' t then tl t else t);
                    ds = takeWhile is_digit u
                in if ds = [] then 0 else if neg then - decimal ds else decimal ds)
          else 0)"

definition parseFloat :: "string \<Rightarrow> jsnum" where
  "parseFloat s =
     (let (sign, t) = strip_sign (dropWhile is_space s) in
      if prefix ''Infinity'' t then (if sign < 0 then NegInfinity else Infinity)
      else
        let ip = takeWhile is_digit t;
            r1 = dropWhile is_digit t;
            fp = (if prefix ''.'' r1 then takeWhile is_digit (tl r1) else []);
            r2 = (if prefix ''.'' r1 then dropWhile is_digit (tl r1) else r1)
        in if ip = [] \<and> fp = [] then NaN
           else Num (sign * (of_int (decimal ip) + of_int (decimal fp) / 10 ^ length fp)
                          * 10 powi exponent r2))"

text \<open>\<open>isNaN\<close>, \<open>Number.isInteger\<close>, and the comparisons of a number with a finite bound.\<close>

definition isNaN :: "jsnum \<Rightarrow> bool" where
  "isNaN x = (x = NaN)"

definition Number_isInteger :: "jsnum \<Rightarrow> bool" where
  "Number_isInteger x = (case x of Num r \<Rightarrow> of_int \<lfloor>r\<rfloor> = r | _ \<Rightarrow> False)"

fun js_less :: "jsnum \<Rightarrow> jsnum \<Rightarrow> bool" where
  "js_less NaN y = False"
| "js_less x NaN = False"
| "js_less Infinity y = False"
| "js_less x NegInfinity = False"
| "js_less NegInfinity y = True"
| "js_less x Infinity = True"
| "js_less (Num a) (Num b) = (a < b)"

text \<open>\<open>x || d\<close> for numbers: \<open>NaN\<close> and zero are falsy.\<close>

definition or_else :: "jsnum \<Rightarrow> jsnum \<Rightarrow> jsnum" where
  "or_else x d = (if x = NaN \<or> x = Num 0 then d else x)"

text \<open>\<open>Math.max(a, b)\<close> and \<open>Math.min(a, b)\<close> on numbers.\<close>

definition Math_max2 :: "jsnum \<Rightarrow> jsnum \<Rightarrow> jsnum" where
  "Math_max2 a b = (if a = NaN \<or> b = NaN then NaN else if js_less a b then b else a)"

definition Math_min2 :: "jsnum \<Rightarrow> jsnum \<Rightarrow> jsnum" where
  "Math_min2 a b = (if a = NaN \<or> b = NaN then NaN else if js_less b a then b else a)"

text \<open>
  Arithmetic on numbers: \<open>-x\<close>, \<open>a + b\<close>, \<open>a - b\<close>, \<open>a * b\<close>, \<open>a / b\<close> and \<open>Math.ceil\<close>.
  Zero has no sign in the model: a division by zero takes the sign of the dividend.
\<close>

definition js_neg :: "jsnum \<Rightarrow> jsnum" where
  "js_neg x = (case x of NaN \<Rightarrow> NaN | NegInfinity \<Rightarrow> Infinity | Num r \<Rightarrow> Num (- r)
               | Infinity \<Rightarrow> NegInfinity)"

fun js_add :: "jsnum \<Rightarrow> jsnum \<Rightarrow> jsnum" where
  "js_add NaN y = NaN"
| "js_add x NaN = NaN"
| "js_add (Num a) (Num b) = Num (a + b)"
| "js_add Infinity NegInfinity = NaN"
| "js_add NegInfinity Infinity = NaN"
| "js_add (Num a) y = y"
| "js_add x y = x"

definition js_sub :: "jsnum \<Rightarrow> jsnum \<Rightarrow> jsnum" where
  "js_sub x y = js_add x (js_neg y)"

text \<open>The sign of a number that is not \<open>NaN\<close>: \<open>-1\<close>, \<open>0\<close> or \<open>1\<close>.\<close>

definition sign_of :: "jsnum \<Rightarrow> rat" where
  "sign_of x = (case x of NaN \<Rightarrow> 0 | NegInfinity \<Rightarrow> - 1 | Num r \<Rightarrow> sgn r | Infinity \<Rightarrow> 1)"

definition signed_infinity :: "rat \<Rightarrow> jsnum" where
  "signed_infinity sg = (if sg = 0 then NaN else if sg < 0 then NegInfinity else Infinity)"

fun js_mul :: "jsnum \<Rightarrow> jsnum \<Rightarrow> jsnum" where
  "js_mul NaN y = NaN"
| "js_mul x NaN = NaN"
| "js_mul (Num a) (Num b) = Num (a * b)"
| "js_mul x y = signed_infinity (sign_of x * sign_of y)"

fun js_div :: "jsnum \<Rightarrow> jsnum \<Rightarrow> jsnum" where
  "js_div NaN y = NaN"
| "js_div x NaN = NaN"
| "js_div (Num a) (Num b) = (if b = 0 then signed_infinity (sgn a) else Num (a / b))"
| "js_div (Num a) y = Num 0"
| "js_div x (Num b) = signed_infinity (sign_of x * (if b < 0 then - 1 else 1))"
| "js_div x y = NaN"

definition Math_ceil :: "jsnum \<Rightarrow> jsnum" where
  "Math_ceil x = (case x of Num r \<Rightarrow> Num (of_int \<lceil>r\<rceil>) | _ \<Rightarrow> x)"


section \<open>Doubles\<close>

text \<open>
  The statistics of the comparison route add, divide and multiply numbers that are not
  integers, so there every result is rounded as IEEE 754 binary64 rounds it: to the nearest
  double, a tie going to the even significand, with gradual underflow below \<open>2 ^ -1022\<close>
  and infinity from \<open>2 ^ 1024 - 2 ^ 970\<close> on. Zero has no sign in the model; the response
  is JSON, which writes both zeros as \<open>0\<close>. A number of the model is a double when
  \<open>double_of\<close> leaves it as it is.
\<close>

text \<open>\<open>b\<close> to the power of an integer \<open>e\<close>, by repeated squaring.\<close>

definition square_step :: "bool \<Rightarrow> rat \<Rightarrow> rat \<Rightarrow> rat" where
  "square_step e b h = (if e then h * h else b * h * h)"

function power_of :: "rat \<Rightarrow> int \<Rightarrow> rat" where
  "power_of b e =
     (if e < 0 then 1 / power_of b (- e)
      else if e = 0 then 1
      else square_step (even e) b (power_of b (e div 2)))"
  by auto

termination
  by (relation "measure (\<lambda>(b, e). nat (2 * \<bar>e\<bar> + (if e < 0 then 1 else 0)))") auto

declare power_of.simps [simp del]

text \<open>The integer part of the logarithm of a positive rational, to the bases 2 and 10: the
  difference of the lengths of numerator and denominator is it, or one more than it.\<close>

function ilog2 :: "int \<Rightarrow> int" where
  "ilog2 n = (if n < 2 then 0 else 1 + ilog2 (n div 2))"
  by auto

termination
  by (relation "measure nat") auto

declare ilog2.simps [simp del]

function ilog10 :: "int \<Rightarrow> int" where
  "ilog10 n = (if n < 10 then 0 else 1 + ilog10 (n div 10))"
  by auto

termination
  by (relation "measure nat") auto

declare ilog10.simps [simp del]

definition floor_log :: "rat \<Rightarrow> int \<Rightarrow> rat \<Rightarrow> int" where
  "floor_log b e x = (if power_of b e \<le> x then e else e - 1)"

definition binade :: "rat \<Rightarrow> int" where
  "binade x =
     (case quotient_of \<bar>x\<bar> of
        (p, q) \<Rightarrow> floor_log 2 (ilog2 p - ilog2 q) \<bar>x\<bar>)"

definition decade :: "rat \<Rightarrow> int" where
  "decade x = (case quotient_of x of (p, q) \<Rightarrow> floor_log 10 (ilog10 p - ilog10 q) x)"

text \<open>The nearest integer, a tie going to the even one.\<close>

definition nearest_even :: "int \<Rightarrow> rat \<Rightarrow> int" where
  "nearest_even n d =
     (if d < 1 / 2 then n else if 1 / 2 < d then n + 1 else if even n then n else n + 1)"

definition round_half_even :: "rat \<Rightarrow> int" where
  "round_half_even y = nearest_even \<lfloor>y\<rfloor> (y - of_int \<lfloor>y\<rfloor>)"

text \<open>
  The double nearest to a rational. The doubles of the binade of \<open>x\<close> are the multiples of
  the unit \<open>2 ^ (e - 52)\<close> for the binade \<open>e\<close>; below the binade -1022 the unit stays
  \<open>2 ^ -1074\<close>.
\<close>

definition in_units :: "rat \<Rightarrow> rat \<Rightarrow> rat" where
  "in_units u x = of_int (round_half_even (x / u)) * u"

definition finite_or_not :: "bool \<Rightarrow> rat \<Rightarrow> jsnum" where
  "finite_or_not negative r =
     (if power_of 2 1024 \<le> r then (if negative then NegInfinity else Infinity)
      else Num (if negative then - r else r))"

definition double_of :: "rat \<Rightarrow> jsnum" where
  "double_of x =
     (if x = 0 then Num 0
      else finite_or_not (x < 0) (in_units (power_of 2 (max (binade x) (- 1022) - 52)) \<bar>x\<bar>))"

definition rounded :: "jsnum \<Rightarrow> jsnum" where
  "rounded x = (case x of Num r \<Rightarrow> double_of r | _ \<Rightarrow> x)"

text \<open>
  \<open>Number(s)\<close>, the conversion that \<open>isNaN\<close>, \<open>Math.min\<close>, \<open>Math.max\<close> and \<open>/\<close> apply to a
  string: white space around the literal is dropped and the empty string is 0; the whole
  of the rest is to be a literal in base 16, 8 or 2 without a sign, or \<open>Infinity\<close> or a
  decimal literal with an optional sign; anything else is \<open>NaN\<close>.
\<close>

definition is_exponent_part :: "string \<Rightarrow> bool" where
  "is_exponent_part s =
     (case s of
        [] \<Rightarrow> True
      | c # t \<Rightarrow>
          (c = CHR ''e'' \<or> c = CHR ''E'')
          \<and> (let u = (if prefix ''-'' t \<or> prefix ''+'' t then tl t else t)
             in u \<noteq> [] \<and> list_all is_digit u))"

definition radix_literal :: "string \<Rightarrow> (int \<times> string) option" where
  "radix_literal t =
     (if prefix ''0x'' t \<or> prefix ''0X'' t then Some (16, drop 2 t)
      else if prefix ''0o'' t \<or> prefix ''0O'' t then Some (8, drop 2 t)
      else if prefix ''0b'' t \<or> prefix ''0B'' t then Some (2, drop 2 t)
      else None)"

definition digit_below :: "int \<Rightarrow> char \<Rightarrow> bool" where
  "digit_below b c = (is_hex_digit c \<and> hex_value c < b)"

definition in_radix :: "int \<Rightarrow> string \<Rightarrow> int" where
  "in_radix b ds = foldl (\<lambda>n c. b * n + hex_value c) 0 ds"

definition StringToNumber :: "string \<Rightarrow> jsnum" where
  "StringToNumber s =
     (let t = trim s in
      if t = [] then Num 0
      else
        case radix_literal t of
          Some (b, ds) \<Rightarrow>
            if ds \<noteq> [] \<and> list_all (digit_below b) ds then double_of (of_int (in_radix b ds))
            else NaN
        | None \<Rightarrow>
            let (sign, u) = strip_sign t in
            if u = ''Infinity'' then (if sign < 0 then NegInfinity else Infinity)
            else
              let ip = takeWhile is_digit u;
                  r1 = dropWhile is_digit u;
                  fp = (if prefix ''.'' r1 then takeWhile is_digit (tl r1) else []);
                  r2 = (if prefix ''.'' r1 then dropWhile is_digit (tl r1) else r1)
              in if (ip = [] \<and> fp = []) \<or> \<not> is_exponent_part r2 then NaN
                 else double_of (sign * (of_int (decimal ip) + of_int (decimal fp) / 10 ^ length fp)
                                   * power_of 10 (exponent r2)))"

text \<open>
  \<open>String(x)\<close> for a number. For a positive double it is the shortest decimal that rounds
  to it: \<open>k\<close> digits \<open>s\<close> and a place \<open>n\<close> of the decimal point with \<open>s * 10 ^ (n - k)\<close>
  rounding to \<open>x\<close>,
  \<open>k\<close> as small as can be and, among those, \<open>s\<close> the closest to \<open>x\<close>, the even one of two.
  17 digits are enough for a double. The digits are written plainly for \<open>n\<close> from -5 to
  21 and with an exponent otherwise.
\<close>

function digits_of :: "int \<Rightarrow> string" where
  "digits_of n =
     (if n < 10 then [''0123456789'' ! nat n]
      else digits_of (n div 10) @ [''0123456789'' ! nat (n mod 10)])"
  by auto

termination
  by (relation "measure nat") auto

declare digits_of.simps [simp del]

definition candidates :: "rat \<Rightarrow> int \<Rightarrow> (int \<times> int) list" where
  "candidates x k =
     filter (\<lambda>(s, n). power_of 10 (k - 1) \<le> of_int s \<and> of_int s < power_of 10 k
                      \<and> double_of (of_int s * power_of 10 (n - k)) = Num x)
       (concat (map (\<lambda>n. [(\<lfloor>x * power_of 10 (k - n)\<rfloor>, n), (\<lceil>x * power_of 10 (k - n)\<rceil>, n)])
                    [decade x + 1, decade x + 2]))"

definition closer :: "rat \<Rightarrow> int \<Rightarrow> int \<times> int \<Rightarrow> int \<times> int \<Rightarrow> int \<times> int" where
  "closer x k a b =
     (let da = \<bar>of_int (fst a) * power_of 10 (snd a - k) - x\<bar>;
          db = \<bar>of_int (fst b) * power_of 10 (snd b - k) - x\<bar>
      in if db < da \<or> (db = da \<and> odd (fst a) \<and> even (fst b)) then b else a)"

fun shortest :: "rat \<Rightarrow> int list \<Rightarrow> int \<times> int \<times> int" where
  "shortest x [] = (17, \<lfloor>x * power_of 10 (16 - decade x) + 1 / 2\<rfloor>, decade x + 1)"
| "shortest x (k # ks) =
     (case candidates x k of
        [] \<Rightarrow> shortest x ks
      | c # cs \<Rightarrow> (k, foldl (closer x k) c cs))"

definition positive_toString :: "rat \<Rightarrow> string" where
  "positive_toString x =
     (let (k, s, n) = shortest x [1, 2, 3, 4, 5, 6, 7, 8, 9, 10, 11, 12, 13, 14, 15, 16, 17];
          ds = digits_of s
      in if - 5 \<le> n \<and> n \<le> 21
         then (if k \<le> n then ds @ replicate (nat (n - k)) CHR ''0''
               else if 0 < n then take (nat n) ds @ ''.'' @ drop (nat n) ds
               else ''0.'' @ replicate (nat (- n)) CHR ''0'' @ ds)
         else (if k = 1 then ds else take 1 ds @ ''.'' @ drop 1 ds)
              @ ''e'' @ (if n - 1 < 0 then ''-'' else ''+'') @ digits_of \<bar>n - 1\<bar>)"

definition Number_toString :: "jsnum \<Rightarrow> string" where
  "Number_toString x =
     (case x of
        NaN \<Rightarrow> ''NaN''
      | NegInfinity \<Rightarrow> ''-Infinity''
      | Infinity \<Rightarrow> ''Infinity''
      | Num r \<Rightarrow> if r = 0 then ''0'' else if r < 0 then ''-'' @ positive_toString (- r)
                 else positive_toString r)"

text \<open>The conversions of a value to a number and to a string.\<close>

definition Number_of :: "jsval \<Rightarrow> jsnum" where
  "Number_of v = (case v of Null \<Rightarrow> Num 0 | N x \<Rightarrow> x | S s \<Rightarrow> StringToNumber s)"

definition ToString :: "jsval \<Rightarrow> string" where
  "ToString v = (case v of Null \<Rightarrow> ''null'' | N x \<Rightarrow> Number_toString x | S s \<Rightarrow> s)"

text \<open>
  \<open>a + b\<close>: when one side is a string the other is converted to a string and the two are
  joined, and otherwise the two numbers are added. \<open>a / b\<close> and \<open>a * b\<close> convert both sides
  to numbers.
\<close>

definition js_plus :: "jsval \<Rightarrow> jsval \<Rightarrow> jsval" where
  "js_plus a b =
     (case a of
        S x \<Rightarrow> S (x @ ToString b)
      | _ \<Rightarrow> (case b of
                S y \<Rightarrow> S (ToString a @ y)
              | _ \<Rightarrow> N (rounded (js_add (Number_of a) (Number_of b)))))"

definition js_slash :: "jsval \<Rightarrow> jsval \<Rightarrow> jsnum" where
  "js_slash a b = rounded (js_div (Number_of a) (Number_of b))"

definition js_times :: "jsval \<Rightarrow> jsval \<Rightarrow> jsnum" where
  "js_times a b = rounded (js_mul (Number_of a) (Number_of b))"

text \<open>\<open>Math.round\<close>: the nearest integer, a tie going up; the result is exact.\<close>

definition Math_round :: "jsnum \<Rightarrow> jsnum" where
  "Math_round x = (case x of Num r \<Rightarrow> Num (of_int \<lfloor>r + 1 / 2\<rfloor>) | _ \<Rightarrow> x)"



section \<open>The comparison route (\<open>GET /api/compare\<close>)\<close>

text \<open>
  A row of \<open>courses\<close> as the database driver hands it to the route. \<open>course_id\<close> is the
  key of the table (the ingestion upserts \<open>ON CONFLICT (course_id)\<close>). A text column is a
  string or NULL, and NULL is \<open>None\<close>. The table's declaration is not part of the sources,
  so a numeric column is what the driver can deliver for one: \<open>null\<close>, a number (for an
  \<open>INTEGER\<close> or a floating-point column) or a string (for a \<open>NUMERIC\<close> or a \<open>BIGINT\<close>
  column).
\<close>

record course =
  course_id :: string
  course_name :: "string option"
  department :: "string option"
  level :: "string option"
  delivery_mode :: "string option"
  credits :: jsval
  duration_weeks :: jsval
  rating :: jsval
  tuition_fee_inr :: jsval
  year_offered :: jsval

text \<open>The three statistics of a column; \<open>null\<close> is \<open>None\<close>. The response is JSON, where
  \<open>NaN\<close> and the infinities are written as \<open>null\<close>.\<close>

record range =
  min_of :: "jsnum option"
  max_of :: "jsnum option"
  avg_of :: "jsnum option"

record insights =
  fee_range :: range
  rating_range :: range
  credits_range :: range
  levels :: "string list"
  delivery_modes :: "string list"
  departments :: "string list"

text \<open>A small table for worked examples, stored in the order of its keys: the integer
  columns are delivered as numbers and the rating, a \<open>NUMERIC\<close> column, as strings; the fee
  of the third row is NULL.\<close>

definition sample_store :: "course list" where
  "sample_store =
     [\<lparr>course_id = ''1'', course_name = Some ''Algorithms'',
       department = Some ''Computer Science'', level = Some ''UG'',
       delivery_mode = Some ''online'', credits = N (Num 4), duration_weeks = N (Num 12),
       rating = S ''4.5'', tuition_fee_inr = N (Num 50000), year_offered = N (Num 2024)\<rparr>,
      \<lparr>course_id = ''2'', course_name = Some ''Contract Law'',
       department = Some ''Law'', level = Some ''PG'',
       delivery_mode = Some ''offline'', credits = N (Num 3), duration_weeks = N (Num 10),
       rating = S ''3.9'', tuition_fee_inr = N (Num 40001), year_offered = N (Num 2023)\<rparr>,
      \<lparr>course_id = ''3'', course_name = Some ''Typography'',
       department = Some ''Design'', level = Some ''UG'',
       delivery_mode = Some ''hybrid'', credits = N (Num 3), duration_weeks = N (Num 8),
       rating = S ''4.1'', tuition_fee_inr = Null, year_offered = N (Num 2024)\<rparr>]"

text \<open>
  \<open>courses.map(c => c.f).filter(v => v !== null && v !== undefined && !isNaN(v))\<close>:
  a row has every selected column, so no value is \<open>undefined\<close>; \<open>isNaN\<close> converts its
  argument to a number, so a string that reads as a number is kept as the string it is.
\<close>

definition numeric_values :: "(course \<Rightarrow> jsval) \<Rightarrow> course list \<Rightarrow> jsval list" where
  "numeric_values f cs = filter (\<lambda>v. v \<noteq> Null \<and> \<not> isNaN (Number_of v)) (map f cs)"

text \<open>\<open>Math.min(...xs)\<close> and \<open>Math.max(...xs)\<close>: every argument is converted to a number,
  and one \<open>NaN\<close> makes the result \<open>NaN\<close>.\<close>

definition Math_min :: "jsval list \<Rightarrow> jsnum" where
  "Math_min xs = foldl Math_min2 Infinity (map Number_of xs)"

definition Math_max :: "jsval list \<Rightarrow> jsnum" where
  "Math_max xs = foldl Math_max2 NegInfinity (map Number_of xs)"

text \<open>\<open>xs.reduce((a, b) => a + b, 0)\<close>\<close>

definition reduce_sum :: "jsval list \<Rightarrow> jsval" where
  "reduce_sum xs = foldl js_plus (N (Num 0)) xs"

definition null_range :: range where
  "null_range = \<lparr>min_of = None, max_of = None, avg_of = None\<rparr>"

text \<open>\<open>Math.round(fees.reduce((a, b) => a + b, 0) / fees.length)\<close>\<close>

definition fee_stats :: "jsval list \<Rightarrow> range" where
  "fee_stats fees =
     (if length fees > 0
      then \<lparr>min_of = Some (Math_min fees), max_of = Some (Math_max fees),
            avg_of = Some (Math_round
              (js_slash (reduce_sum fees) (N (Num (of_nat (length fees))))))\<rparr>
      else null_range)"

text \<open>\<open>Math.round((xs.reduce((a, b) => a + b, 0) / xs.length) * 10) / 10\<close>; the rating and
  the credits statistics are the same computation in the source.\<close>

definition decimal_stats :: "jsval list \<Rightarrow> range" where
  "decimal_stats vs =
     (if length vs > 0
      then \<lparr>min_of = Some (Math_min vs), max_of = Some (Math_max vs),
            avg_of = Some (js_slash
              (N (Math_round
                    (js_times (N (js_slash (reduce_sum vs) (N (Num (of_nat (length vs))))))
                              (N (Num 10)))))
              (N (Num 10)))\<rparr>
      else null_range)"

text \<open>\<open>[...new Set(courses.map(c => c.f).filter(Boolean))]\<close>: null and the empty string are falsy.\<close>

definition categorical_values :: "(course \<Rightarrow> string option) \<Rightarrow> course list \<Rightarrow> string list" where
  "categorical_values f cs =
     new_Set (map the (filter (\<lambda>v. v \<noteq> None \<and> v \<noteq> Some []) (map f cs)))"

definition generateComparisonInsights :: "course list \<Rightarrow> insights" where
  "generateComparisonInsights courses =
     \<lparr>fee_range = fee_stats (numeric_values tuition_fee_inr courses),
      rating_range = decimal_stats (numeric_values rating courses),
      credits_range = decimal_stats (numeric_values credits courses),
      levels = categorical_values level courses,
      delivery_modes = categorical_values delivery_mode courses,
      departments = categorical_values department courses\<rparr>"

datatype compare_error =
  Missing_required_parameter | Invalid_IDs_format | Too_many_course_IDs

record compare_meta =
  requested_count :: nat
  found_count :: nat
  missing_count :: nat

record compare_response =
  courses :: "course list"
  missing_ids :: "string list"
  meta :: compare_meta
  insights_of :: "insights option"

text \<open>\<open>ids.split(',').map(id => id.trim()).filter(id => id !== '')\<close>\<close>

definition parse_ids :: "string \<Rightarrow> string list" where
  "parse_ids ids = filter (\<lambda>id. id \<noteq> []) (map trim (split_on CHR '','' ids))"

text \<open>
  The value of \<open>CASE course_id WHEN $1 THEN 1 ... WHEN $n THEN n ELSE n + 1 END\<close> for a row,
  \<open>$k\<close> being bound to \<open>params ! (k - 1)\<close>: the first clause that matches decides.
\<close>

definition order_case :: "string list \<Rightarrow> string \<Rightarrow> nat" where
  "order_case params cid =
     (case find (\<lambda>index. params ! index = cid) [0..<length params] of
        Some index \<Rightarrow> index + 1
      | None \<Rightarrow> length params + 1)"

text \<open>
  What the row store answers to the comparison query bound to \<open>params\<close>: the rows
  \<open>WHERE course_id IN ($1, ..., $n)\<close>, in the order of the \<open>CASE\<close> expression.
\<close>

definition compare_query :: "course list \<Rightarrow> string list \<Rightarrow> course list" where
  "compare_query store params =
     sort_key (\<lambda>row. order_case params (course_id row))
       (filter (\<lambda>row. course_id row \<in> set params) store)"

text \<open>
  The handler. The request carries \<open>ids\<close> or not; \<open>!ids\<close> holds for an absent and for an
  empty value. An exception thrown while parsing is answered as an invalid format. The
  time stamp of the response is left out.
\<close>

definition compare_handler :: "course list \<Rightarrow> string option \<Rightarrow> compare_error + compare_response" where
  "compare_handler store ids_param =
     (case ids_param of
        None \<Rightarrow> Inl Missing_required_parameter
      | Some ids \<Rightarrow>
          if ids = [] then Inl Missing_required_parameter
          else
            let courseIds = parse_ids ids in
            if length courseIds = 0 then Inl Invalid_IDs_format
            else if length courseIds > 4 then Inl Too_many_course_IDs
            else if length (filter (\<lambda>id. id = []) courseIds) > 0 then Inl Invalid_IDs_format
            else
              let uniqueIds = new_Set courseIds;
                  foundCourses = compare_query store uniqueIds;
                  foundIds = map course_id foundCourses;
                  missingIds = filter (\<lambda>id. id \<notin> set foundIds) uniqueIds
              in Inr \<lparr>courses = foundCourses,
                      missing_ids = missingIds,
                      meta = \<lparr>requested_count = length uniqueIds,
                               found_count = length foundCourses,
                               missing_count = length missingIds\<rparr>,
                      insights_of = (if length foundCourses > 1
                                     then Some (generateComparisonInsights foundCourses)
                                     else None)\<rparr>)"



section \<open>Regular expressions\<close>

text \<open>
  The fragment of JavaScript's regular expressions that the routes use. \<open>rx_run r s c\<close>
  lists, in the order in which backtracking tries them, the ways \<open>r\<close> can match a prefix
  of \<open>s\<close>: what is left of \<open>s\<close>, and the captures. Quantifiers are greedy, an alternation
  tries its left side first, and an iteration of \<open>*\<close> that consumes nothing is given up.
\<close>

datatype rx =
  Fail | Eps | Lit string | Digit | Space
  | Seq rx rx | Alt rx rx | Star rx | Cap nat rx

type_synonym caps = "(nat \<times> string) list"

fun rx_run :: "rx \<Rightarrow> string \<Rightarrow> caps \<Rightarrow> (string \<times> caps) list" where
  "rx_run Fail s c = []"
| "rx_run Eps s c = [(s, c)]"
| "rx_run (Lit w) s c = (if prefix w s then [(drop (length w) s, c)] else [])"
| "rx_run Digit s c = (case s of [] \<Rightarrow> [] | x # t \<Rightarrow> if is_digit x then [(t, c)] else [])"
| "rx_run Space s c = (case s of [] \<Rightarrow> [] | x # t \<Rightarrow> if is_space x then [(t, c)] else [])"
| "rx_run (Seq a b) s c = concat (map (\<lambda>p. rx_run b (fst p) (snd p)) (rx_run a s c))"
| "rx_run (Alt a b) s c = rx_run a s c @ rx_run b s c"
| "rx_run (Star a) s c =
     concat (map (\<lambda>p. if length (fst p) < length s then rx_run (Star a) (fst p) (snd p) else [])
                 (rx_run a s c))
     @ [(s, c)]"
| "rx_run (Cap n a) s c =
     map (\<lambda>p. (fst p, (n, take (length s - length (fst p)) s) # snd p)) (rx_run a s c)"

text \<open>\<open>r?\<close>, \<open>r+\<close>, a sequence, and an alternation of literal words.\<close>

definition Opt :: "rx \<Rightarrow> rx" where
  "Opt r = Alt r Eps"

definition Plus :: "rx \<Rightarrow> rx" where
  "Plus r = Seq r (Star r)"

definition seqs :: "rx list \<Rightarrow> rx" where
  "seqs rs = foldr Seq rs Eps"

definition alts :: "rx list \<Rightarrow> rx" where
  "alts rs = foldr Alt rs Fail"

definition words :: "string list \<Rightarrow> rx" where
  "words ws = alts (map Lit ws)"

text \<open>\<open>s.match(r)\<close> without the \<open>g\<close> flag: the first way to match at the leftmost place that has one.\<close>

fun rx_match :: "rx \<Rightarrow> string \<Rightarrow> caps option" where
  "rx_match r [] = (case rx_run r [] [] of [] \<Rightarrow> None | p # _ \<Rightarrow> Some (snd p))"
| "rx_match r (x # t) =
     (case rx_run r (x # t) [] of [] \<Rightarrow> rx_match r t | p # _ \<Rightarrow> Some (snd p))"

text \<open>What \<open>rx_run\<close> leaves of the string, without the captures; and the expressions
  without a group.\<close>

fun rx_rests :: "rx \<Rightarrow> string \<Rightarrow> string list" where
  "rx_rests Fail s = []"
| "rx_rests Eps s = [s]"
| "rx_rests (Lit w) s = (if prefix w s then [drop (length w) s] else [])"
| "rx_rests Digit s = (case s of [] \<Rightarrow> [] | x # t \<Rightarrow> if is_digit x then [t] else [])"
| "rx_rests Space s = (case s of [] \<Rightarrow> [] | x # t \<Rightarrow> if is_space x then [t] else [])"
| "rx_rests (Seq a b) s = concat (map (rx_rests b) (rx_rests a s))"
| "rx_rests (Alt a b) s = rx_rests a s @ rx_rests b s"
| "rx_rests (Star a) s =
     concat (map (\<lambda>t. if length t < length s then rx_rests (Star a) t else []) (rx_rests a s))
     @ [s]"
| "rx_rests (Cap n a) s = rx_rests a s"

text \<open>The equations of \<open>*\<close> unfold for ever, so they are not rewrite rules.\<close>

declare rx_run.simps(8) [simp del]

declare rx_rests.simps(8) [simp del]

fun capless :: "rx \<Rightarrow> bool" where
  "capless (Seq a b) = (capless a \<and> capless b)"
| "capless (Alt a b) = (capless a \<and> capless b)"
| "capless (Star a) = capless a"
| "capless (Cap n a) = False"
| "capless r = True"

text \<open>\<open>match[n]\<close> for a group that took part in the match.\<close>

definition match_group :: "caps \<Rightarrow> nat \<Rightarrow> string" where
  "match_group m n = (case map_of m n of Some s \<Rightarrow> s | None \<Rightarrow> [])"



section \<open>The free-text route (\<open>POST /api/ask\<close>)\<close>

subsection \<open>\<open>parseNaturalLanguageQuery\<close>\<close>

text \<open>
  The object \<open>filters\<close>: an absent key is \<open>None\<close>. The parser stores strings under the
  first four keys and numbers under the others.
\<close>

record filters =
  q :: "string option"
  department :: "string option"
  level :: "string option"
  delivery_mode :: "string option"
  year_offered :: "jsnum option"
  min_fee :: "jsnum option"
  max_fee :: "jsnum option"
  min_rating :: "jsnum option"
  max_rating :: "jsnum option"
  min_credits :: "jsnum option"
  max_credits :: "jsnum option"

definition empty_filters :: filters where
  "empty_filters =
     \<lparr>q = None, department = None, level = None, delivery_mode = None, year_offered = None,
      min_fee = None, max_fee = None, min_rating = None, max_rating = None,
      min_credits = None, max_credits = None\<rparr>"

definition toLowerCase :: "string \<Rightarrow> string" where
  "toLowerCase s =
     map (\<lambda>c. if of_char CHR ''A'' \<le> (of_char c :: nat) \<and> (of_char c :: nat) \<le> of_char CHR ''Z''
              then char_of ((of_char c :: nat) + 32) else c) s"

text \<open>\<open>text.includes(pattern)\<close>\<close>

fun str_includes :: "string \<Rightarrow> string \<Rightarrow> bool" where
  "str_includes [] pattern = (pattern = [])"
| "str_includes (c # cs) pattern = (prefix pattern (c # cs) \<or> str_includes cs pattern)"

text \<open>\<open>s.split(/\s+/)\<close>: the pieces between the runs of white space.\<close>

fun split_ws :: "string \<Rightarrow> string list" where
  "split_ws [] = [[]]"
| "split_ws (c # cs) =
     (if is_space c
      then (if cs \<noteq> [] \<and> is_space (hd cs) then split_ws cs else [] # split_ws cs)
      else (let r = split_ws cs in (c # hd r) # tl r))"

text \<open>\<open>words.join(' ')\<close>\<close>

fun join :: "string list \<Rightarrow> string" where
  "join [] = []"
| "join [w] = w"
| "join (w # ws) = w @ '' '' @ join ws"

definition deliveryModePatterns :: "(string \<times> string list) list" where
  "deliveryModePatterns =
     [(''online'', [''online'', ''remote'', ''virtual'', ''digital'', ''web-based'', ''internet'',
                    ''distance'']),
      (''offline'', [''offline'', ''physical'', ''in-person'', ''campus'', ''classroom'',
                     ''face-to-face'', ''onsite'', ''on-campus'']),
      (''hybrid'', [''hybrid'', ''blended'', ''mixed'', ''combined'', ''flexible''])]"

definition apostrophe :: string where
  "apostrophe = [CHR 0x27]"

definition levelPatterns :: "(string \<times> string list) list" where
  "levelPatterns =
     [(''UG'', [''undergraduate'', ''ug'', ''bachelor'', ''bachelors'',
                ''bachelor'' @ apostrophe @ ''s'', ''btech'', ''bsc'', ''ba'', ''bcom'',
                ''undergrad'', ''under-graduate'']),
      (''PG'', [''postgraduate'', ''pg'', ''graduate'', ''master'', ''masters'',
                ''master'' @ apostrophe @ ''s'', ''mtech'', ''msc'', ''ma'', ''mcom'', ''mba'',
                ''post-graduate'', ''postgrad''])]"

definition departmentKeywords :: "(string \<times> string list) list" where
  "departmentKeywords =
     [(''Computer Science'', [''computer'', ''programming'', ''software'', ''coding'',
                              ''algorithm'', ''data'', ''ai'', ''ml'', ''tech'', ''cs'', ''it'']),
      (''Management'', [''management'', ''business'', ''mba'', ''leadership'', ''strategy'',
                        ''operations'', ''mgt'']),
      (''Electrical Engineering'', [''electrical'', ''electronics'', ''circuit'', ''power'',
                                    ''signal'', ''ee'', ''eee'']),
      (''Arts'', [''arts'', ''literature'', ''philosophy'', ''history'', ''creative'',
                  ''humanities'']),
      (''Design'', [''design'', ''graphic'', ''ui'', ''ux'', ''visual'', ''creative'', ''art'']),
      (''Law'', [''law'', ''legal'', ''constitutional'', ''criminal'', ''commercial'',
                 ''judiciary'']),
      (''Medicine'', [''medicine'', ''medical'', ''health'', ''anatomy'', ''clinical'', ''doctor'',
                      ''healthcare'']),
      (''Commerce'', [''commerce'', ''finance'', ''accounting'', ''economics'', ''trade'',
                      ''business''])]"

text \<open>
  \<open>for (const [key, patterns] of Object.entries(table)) if (patterns.some(p =>
  text.includes(p))) { ...; break }\<close>: the key of the first entry with a pattern in the text.
\<close>

fun first_entry :: "(string \<times> string list) list \<Rightarrow> string \<Rightarrow> string option" where
  "first_entry [] text = None"
| "first_entry ((key, patterns) # rest) text =
     (if list_ex (\<lambda>pattern. str_includes text pattern) patterns then Some key
      else first_entry rest text)"

text \<open>
  \<open>for (const {regex, handler} of rules) { const match = text.match(regex); if (match) {
  Object.assign(filters, handler(match)); break } }\<close>
\<close>

type_synonym rule = "rx \<times> (caps \<Rightarrow> filters \<Rightarrow> filters)"

fun first_rule :: "rule list \<Rightarrow> string \<Rightarrow> filters \<Rightarrow> filters" where
  "first_rule [] text f = f"
| "first_rule ((regex, handler) # rest) text f =
     (case rx_match regex text of
        Some m \<Rightarrow> handler m f
      | None \<Rightarrow> first_rule rest text f)"

text \<open>The pieces the patterns share: \<open>\s*\<close>, \<open>(?:rs\.?|inr|\<close>rupee sign\<open>)?\<close>, \<open>\d+(?:,\d+)*\<close>,
  \<open>\d+(?:\.\d+)?\<close>, \<open>\d+\<close>. The rupee sign is its three bytes in UTF-8.\<close>

definition ws :: rx where
  "ws = Star Space"

definition currency :: rx where
  "currency = Opt (alts [Seq (Lit ''rs'') (Opt (Lit ''.'')), Lit ''inr'',
                         Lit [CHR 0xE2, CHR 0x82, CHR 0xB9]])"

definition amount :: rx where
  "amount = Seq (Plus Digit) (Star (Seq (Lit '','') (Plus Digit)))"

definition decimal_number :: rx where
  "decimal_number = Seq (Plus Digit) (Opt (Seq (Lit ''.'') (Plus Digit)))"

definition digits :: rx where
  "digits = Plus Digit"

text \<open>\<open>parseInt(match[n].replace(/,/g, ''))\<close>\<close>

definition fee_of :: "caps \<Rightarrow> nat \<Rightarrow> jsnum" where
  "fee_of m n = parseInt (filter (\<lambda>c. c \<noteq> CHR '','') (match_group m n))"

definition feeRegexes :: "rule list" where
  "feeRegexes =
     [(seqs [words [''under'', ''below'', ''less than'', ''cheaper than'', ''maximum'', ''max'',
                    ''up to''],
             ws, currency, ws, Cap 1 amount],
       \<lambda>m f. f\<lparr>max_fee := Some (fee_of m 1)\<rparr>),
      (seqs [words [''above'', ''over'', ''more than'', ''greater than'', ''minimum'', ''min'',
                    ''at least''],
             ws, currency, ws, Cap 1 amount],
       \<lambda>m f. f\<lparr>min_fee := Some (fee_of m 1)\<rparr>),
      (seqs [words [''between'', ''from''], ws, currency, ws, Cap 1 amount, ws,
             words [''and'', ''to'', ''-''], ws, currency, ws, Cap 2 amount],
       \<lambda>m f. let fee1 = fee_of m 1; fee2 = fee_of m 2
              in f\<lparr>min_fee := Some (Math_min2 fee1 fee2), max_fee := Some (Math_max2 fee1 fee2)\<rparr>),
      (seqs [alts [Lit ''exactly'', Seq (Lit ''cost'') (Opt (Lit ''s'')),
                   Seq (Lit ''fee'') (Opt (Lit ''s'')),
                   seqs [Lit ''price'', Opt (Lit ''d''), Lit '' at'']],
             ws, currency, ws, Cap 1 amount],
       \<lambda>m f. let fee = fee_of m 1 in f\<lparr>min_fee := Some fee, max_fee := Some fee\<rparr>)]"

text \<open>\<open>(?:rating|rated|stars?)\<close>\<close>

definition rating_word :: rx where
  "rating_word = alts [Lit ''rating'', Lit ''rated'', Seq (Lit ''star'') (Opt (Lit ''s''))]"

definition ratingRegexes :: "rule list" where
  "ratingRegexes =
     [(seqs [rating_word, ws,
             words [''above'', ''over'', ''more than'', ''greater than'', ''at least''], ws,
             Cap 1 decimal_number],
       \<lambda>m f. f\<lparr>min_rating := Some (parseFloat (match_group m 1))\<rparr>),
      (seqs [rating_word, ws,
             words [''below'', ''under'', ''less than'', ''maximum'', ''max''], ws,
             Cap 1 decimal_number],
       \<lambda>m f. f\<lparr>max_rating := Some (parseFloat (match_group m 1))\<rparr>),
      (seqs [rating_word, ws, words [''between'', ''from''], ws, Cap 1 decimal_number, ws,
             words [''and'', ''to'', ''-''], ws, Cap 2 decimal_number],
       \<lambda>m f. let rating1 = parseFloat (match_group m 1); rating2 = parseFloat (match_group m 2)
              in f\<lparr>min_rating := Some (Math_min2 rating1 rating2),
                    max_rating := Some (Math_max2 rating1 rating2)\<rparr>),
      (seqs [Cap 1 decimal_number, ws,
             alts [Lit ''star'', Seq (Lit ''star'') (Opt (Lit ''s'')), Lit ''rating'',
                   Lit ''rated'']],
       \<lambda>m f. f\<lparr>min_rating := Some (parseFloat (match_group m 1))\<rparr>)]"

text \<open>\<open>\s*credits?\<close>\<close>

definition credits_word :: rx where
  "credits_word = seqs [ws, Lit ''credit'', Opt (Lit ''s'')]"

definition creditRegexes :: "rule list" where
  "creditRegexes =
     [(seqs [Cap 1 digits, credits_word],
       \<lambda>m f. let credits = parseInt (match_group m 1)
              in f\<lparr>min_credits := Some credits, max_credits := Some credits\<rparr>),
      (seqs [words [''between'', ''from''], ws, Cap 1 digits, ws, words [''and'', ''to'', ''-''],
             ws, Cap 2 digits, credits_word],
       \<lambda>m f. let credits1 = parseInt (match_group m 1); credits2 = parseInt (match_group m 2)
              in f\<lparr>min_credits := Some (Math_min2 credits1 credits2),
                    max_credits := Some (Math_max2 credits1 credits2)\<rparr>),
      (seqs [words [''at least'', ''minimum'', ''min''], ws, Cap 1 digits, credits_word],
       \<lambda>m f. f\<lparr>min_credits := Some (parseInt (match_group m 1))\<rparr>),
      (seqs [words [''at most'', ''maximum'', ''max'', ''up to''], ws, Cap 1 digits,
             credits_word],
       \<lambda>m f. f\<lparr>max_credits := Some (parseInt (match_group m 1))\<rparr>)]"

text \<open>\<open>/(?:year|in)\s*(20\d{2})/\<close>\<close>

definition yearRegex :: rx where
  "yearRegex = seqs [words [''year'', ''in''], ws, Cap 1 (seqs [Lit ''20'', Digit, Digit])]"

definition stopWords :: "string list" where
  "stopWords =
     [''i'', ''want'', ''to'', ''find'', ''search'', ''for'', ''show'', ''me'', ''get'', ''list'',
      ''of'', ''courses'', ''course'', ''in'', ''with'', ''that'', ''are'', ''is'', ''and'', ''or'',
      ''the'', ''a'', ''an'', ''some'', ''all'', ''any'', ''can'', ''you'', ''please'', ''help'']"

definition allPatternWords :: "string list" where
  "allPatternWords =
     concat (map snd deliveryModePatterns) @ concat (map snd levelPatterns)
     @ concat (map snd departmentKeywords)
     @ [''rating'', ''rated'', ''star'', ''stars'', ''credit'', ''credits'',
        ''fee'', ''fees'', ''cost'', ''costs'', ''price'', ''year'']"

text \<open>The filter of step 8; \<open>/^\d+$/.test(word)\<close> holds for a non-empty run of digits.\<close>

definition is_search_term :: "string \<Rightarrow> bool" where
  "is_search_term word =
     (if word \<in> set stopWords then False
      else if word \<noteq> [] \<and> list_all is_digit word then False
      else if length word \<le> 2 then False
      else word \<notin> set allPatternWords)"

definition parseNaturalLanguageQuery :: "string \<Rightarrow> filters" where
  "parseNaturalLanguageQuery question =
     (let lowerQuestion = trim (toLowerCase question);
          f1 = (case first_entry deliveryModePatterns lowerQuestion of
                  Some mode \<Rightarrow> empty_filters\<lparr>delivery_mode := Some mode\<rparr>
                | None \<Rightarrow> empty_filters);
          f2 = (case first_entry levelPatterns lowerQuestion of
                  Some lvl \<Rightarrow> f1\<lparr>level := Some lvl\<rparr>
                | None \<Rightarrow> f1);
          f3 = first_rule feeRegexes lowerQuestion f2;
          f4 = first_rule ratingRegexes lowerQuestion f3;
          f5 = first_rule creditRegexes lowerQuestion f4;
          f6 = (case first_entry departmentKeywords lowerQuestion of
                  Some dept \<Rightarrow> f5\<lparr>department := Some dept\<rparr>
                | None \<Rightarrow> f5);
          f7 = (case rx_match yearRegex lowerQuestion of
                  Some yearMatch \<Rightarrow> f6\<lparr>year_offered := Some (parseInt (match_group yearMatch 1))\<rparr>
                | None \<Rightarrow> f6);
          searchTerms = filter is_search_term (split_ws lowerQuestion)
      in if length searchTerms > 0 then f7\<lparr>q := Some (join searchTerms)\<rparr> else f7)"


subsection \<open>Query text\<close>

text \<open>
  A piece of SQL text is a list of tokens: literal text, or the placeholder \<open>$n\<close>. A
  builder holds the three variables \<open>conditions\<close>, \<open>queryParams\<close> and \<open>paramCounter\<close>.
\<close>

datatype token = T string | P nat

type_synonym fragment = "token list"

record builder =
  conditions :: "fragment list"
  queryParams :: "jsval list"
  paramCounter :: nat

text \<open>\<open>conditions.push(fragment); queryParams.push(value); paramCounter++\<close>, the fragment
  being written with the current value of \<open>paramCounter\<close>.\<close>

definition push :: "(nat \<Rightarrow> fragment) \<Rightarrow> jsval \<Rightarrow> builder \<Rightarrow> builder" where
  "push fragment v b =
     \<lparr>conditions = conditions b @ [fragment (paramCounter b)],
      queryParams = queryParams b @ [v],
      paramCounter = paramCounter b + 1\<rparr>"

definition new_builder :: builder where
  "new_builder = \<lparr>conditions = [], queryParams = [], paramCounter = 1\<rparr>"

text \<open>The main query: the conditions joined by \<open>AND\<close>, the \<open>ORDER BY\<close> text, the two
  placeholders of \<open>LIMIT\<close> and \<open>OFFSET\<close>, and the parameters bound to it.\<close>

record select_query =
  where_conditions :: "fragment list"
  order_by :: string
  limit :: token
  offset :: token
  params :: "jsval list"

record page_meta =
  total_count :: nat
  page :: jsval
  per_page :: jsval
  total_pages :: jsnum
  has_next_page :: bool
  has_prev_page :: bool

text \<open>What a search route computes: the main query it sends, and the \<open>meta\<close> of its answer.
  The rows of the answer are the store's and are not modelled.\<close>

record search_result =
  main_query :: select_query
  meta_of :: page_meta

text \<open>The placeholders a list of fragments mentions.\<close>

fun placeholder_of :: "token \<Rightarrow> nat list" where
  "placeholder_of (T s) = []"
| "placeholder_of (P n) = [n]"

definition placeholders :: "fragment list \<Rightarrow> nat list" where
  "placeholders fs = concat (map placeholder_of (concat fs))"

text \<open>Truthiness of an optional string and of an optional number.\<close>

definition truthy_str :: "string option \<Rightarrow> bool" where
  "truthy_str v = (case v of None \<Rightarrow> False | Some s \<Rightarrow> s \<noteq> [])"

definition truthy_num :: "jsnum option \<Rightarrow> bool" where
  "truthy_num v = (case v of None \<Rightarrow> False | Some x \<Rightarrow> x \<noteq> NaN \<and> x \<noteq> Num 0)"

definition like_fragment :: "nat \<Rightarrow> fragment" where
  "like_fragment n = [T ''(course_name ILIKE '', P n, T '' OR department ILIKE '', P n, T '')'']"

definition column_fragment :: "string \<Rightarrow> nat \<Rightarrow> fragment" where
  "column_fragment text n = [T text, P n]"

subsection \<open>\<open>executeFilteredQuery\<close>\<close>

definition ask_conditions :: "filters \<Rightarrow> builder" where
  "ask_conditions f =
     (let b0 = new_builder;
          b1 = (if truthy_str (q f)
                then push like_fragment (S (''%'' @ the (q f) @ ''%'')) b0 else b0);
          b2 = (if truthy_str (department f)
                then push (column_fragment ''department ILIKE '')
                       (S (''%'' @ the (department f) @ ''%'')) b1
                else b1);
          b3 = (if truthy_str (level f)
                then push (column_fragment ''level = '') (S (the (level f))) b2 else b2);
          b4 = (if truthy_str (delivery_mode f)
                then push (column_fragment ''delivery_mode = '') (S (the (delivery_mode f))) b3
                else b3);
          b5 = (if truthy_num (year_offered f)
                then push (column_fragment ''year_offered = '') (N (the (year_offered f))) b4
                else b4);
          b6 = (if min_fee f \<noteq> None
                then push (column_fragment ''tuition_fee_inr >= '') (N (the (min_fee f))) b5
                else b5);
          b7 = (if max_fee f \<noteq> None
                then push (column_fragment ''tuition_fee_inr <= '') (N (the (max_fee f))) b6
                else b6);
          b8 = (if min_rating f \<noteq> None
                then push (column_fragment ''rating >= '') (N (the (min_rating f))) b7 else b7);
          b9 = (if max_rating f \<noteq> None
                then push (column_fragment ''rating <= '') (N (the (max_rating f))) b8 else b8);
          b10 = (if min_credits f \<noteq> None
                 then push (column_fragment ''credits >= '') (N (the (min_credits f))) b9
                 else b9);
          b11 = (if max_credits f \<noteq> None
                 then push (column_fragment ''credits <= '') (N (the (max_credits f))) b10
                 else b10)
      in b11)"

text \<open>
  \<open>executeFilteredQuery(filters, page, perPage)\<close>; \<open>count\<close> is the store's answer to the
  count query, which has the same conditions and \<open>queryParams\<close>.
\<close>

definition executeFilteredQuery ::
  "(fragment list \<Rightarrow> jsval list \<Rightarrow> nat) \<Rightarrow> filters \<Rightarrow> jsnum \<Rightarrow> jsnum \<Rightarrow> search_result" where
  "executeFilteredQuery count f pg perPage =
     (let b = ask_conditions f;
          totalCount = count (conditions b) (queryParams b);
          totalPages = Math_ceil (js_div (Num (of_nat totalCount)) perPage);
          offs = js_mul (js_sub pg (Num 1)) perPage
      in \<lparr>main_query =
             \<lparr>where_conditions = conditions b,
              order_by = ''rating DESC, course_name ASC'',
              limit = P (paramCounter b),
              offset = P (paramCounter b + 1),
              params = queryParams b @ [N perPage, N offs]\<rparr>,
           meta_of =
             \<lparr>total_count = totalCount, page = N pg, per_page = N perPage,
              total_pages = totalPages,
              has_next_page = js_less pg totalPages,
              has_prev_page = js_less (Num 1) pg\<rparr>\<rparr>)"

subsection \<open>The handler\<close>

text \<open>
  The body of the request: the question, a string when it is there, and \<open>page\<close> and
  \<open>per_page\<close>, which \<open>parseInt\<close> reads through their conversion to a string; \<open>None\<close> is an
  absent key, for which the default is taken.
\<close>

record ask_body =
  question :: "string option"
  body_page :: "string option"
  body_per_page :: "string option"

datatype ask_error = Missing_question

definition ask_handler ::
  "(fragment list \<Rightarrow> jsval list \<Rightarrow> nat) \<Rightarrow> ask_body \<Rightarrow> ask_error + search_result" where
  "ask_handler count body =
     (if \<not> truthy_str (question body) then Inl Missing_question
      else
        let pg = (case body_page body of None \<Rightarrow> ''1'' | Some v \<Rightarrow> v);
            pp = (case body_per_page body of None \<Rightarrow> ''10'' | Some v \<Rightarrow> v);
            pageNum = Math_max2 (Num 1) (or_else (parseInt pg) (Num 1));
            perPage = Math_min2 (Num 100) (Math_max2 (Num 1) (or_else (parseInt pp) (Num 10)));
            filters = parseNaturalLanguageQuery (the (question body))
        in Inr (executeFilteredQuery count filters pageNum perPage))"


section \<open>The explicit-parameter route (\<open>GET /api/courses\<close>)\<close>

text \<open>
  Every failure of this route is answered with status 400: a thrown validation error,
  whose message is \<open>Invalid <name>: <reason>\<close>, or one of the four enum responses.
\<close>

datatype reason = must_be_a_number | must_be_an_integer | must_be_ge rat | must_be_le rat

datatype courses_error =
  Invalid string reason
  | Invalid_level_parameter
  | Invalid_delivery_mode_parameter
  | Invalid_sort_by_parameter
  | Invalid_sort_dir_parameter

text \<open>Running the next statement when nothing was thrown.\<close>

definition and_then :: "'e + 'a \<Rightarrow> ('a \<Rightarrow> 'e + 'b) \<Rightarrow> 'e + 'b" where
  "and_then r k = (case r of Inl e \<Rightarrow> Inl e | Inr v \<Rightarrow> k v)"

text \<open>
  The two validators. A parameter is a string or absent; the result is \<open>null\<close>, here
  \<open>None\<close>, or the number read. \<open>mn\<close> and \<open>mx\<close> are the bounds, \<open>None\<close> for \<open>null\<close>.
\<close>

definition validateNumber ::
  "string option \<Rightarrow> string \<Rightarrow> rat option \<Rightarrow> rat option \<Rightarrow> courses_error + jsnum option" where
  "validateNumber v name mn mx =
     (if v = None \<or> v = Some [] then Inr None
      else
        let num = parseFloat (the v) in
        if isNaN num then Inl (Invalid name must_be_a_number)
        else if mn \<noteq> None \<and> js_less num (Num (the mn)) then Inl (Invalid name (must_be_ge (the mn)))
        else if mx \<noteq> None \<and> js_less (Num (the mx)) num then Inl (Invalid name (must_be_le (the mx)))
        else Inr (Some num))"

definition validateInteger ::
  "string option \<Rightarrow> string \<Rightarrow> rat option \<Rightarrow> rat option \<Rightarrow> courses_error + jsnum option" where
  "validateInteger v name mn mx =
     (if v = None \<or> v = Some [] then Inr None
      else
        let num = parseInt (the v) in
        if (if isNaN num then True else \<not> Number_isInteger (parseFloat (the v)))
        then Inl (Invalid name must_be_an_integer)
        else if mn \<noteq> None \<and> js_less num (Num (the mn)) then Inl (Invalid name (must_be_ge (the mn)))
        else if mx \<noteq> None \<and> js_less (Num (the mx)) num then Inl (Invalid name (must_be_le (the mx)))
        else Inr (Some num))"

definition toUpperCase :: "string \<Rightarrow> string" where
  "toUpperCase s =
     map (\<lambda>c. if of_char CHR ''a'' \<le> (of_char c :: nat) \<and> (of_char c :: nat) \<le> of_char CHR ''z''
              then char_of ((of_char c :: nat) - 32) else c) s"

definition validLevels :: "string list" where
  "validLevels = [''UG'', ''PG'']"

definition validDeliveryModes :: "string list" where
  "validDeliveryModes = [''online'', ''offline'', ''hybrid'']"

definition validSortColumns :: "string list" where
  "validSortColumns =
     [''rating'', ''tuition_fee_inr'', ''credits'', ''duration_weeks'', ''course_id'',
      ''course_name'', ''year_offered'']"

definition validSortDirections :: "string list" where
  "validSortDirections = [''asc'', ''desc'']"

text \<open>A validated value as a query parameter, and as an operand of arithmetic (\<open>null\<close> is 0).\<close>

definition param_of :: "jsnum option \<Rightarrow> jsval" where
  "param_of v = (case v of None \<Rightarrow> Null | Some x \<Rightarrow> N x)"

definition ToNumber :: "jsnum option \<Rightarrow> jsnum" where
  "ToNumber v = (case v of None \<Rightarrow> Num 0 | Some x \<Rightarrow> x)"

text \<open>The object \<open>validatedParams\<close>.\<close>

record validated =
  v_min_fee :: "jsnum option"
  v_max_fee :: "jsnum option"
  v_min_rating :: "jsnum option"
  v_max_rating :: "jsnum option"
  v_min_credits :: "jsnum option"
  v_max_credits :: "jsnum option"
  v_min_duration_weeks :: "jsnum option"
  v_max_duration_weeks :: "jsnum option"
  v_year_offered :: "jsnum option"
  v_page :: "jsnum option"
  v_per_page :: "jsnum option"

text \<open>Step 2: the fields are validated in the order of the object literal, and the first
  error thrown ends the request. \<open>page\<close> and \<open>per_page\<close> default to \<open>1\<close> and \<open>10\<close> when absent.\<close>

definition validate_params :: "(string \<rightharpoonup> string) \<Rightarrow> courses_error + validated" where
  "validate_params query =
     (let page_p = (case query ''page'' of None \<Rightarrow> Some ''1'' | Some v \<Rightarrow> Some v);
          per_page_p = (case query ''per_page'' of None \<Rightarrow> Some ''10'' | Some v \<Rightarrow> Some v)
      in
      and_then (validateNumber (query ''min_fee'') ''min_fee'' (Some 0) None) (\<lambda>a1.
      and_then (validateNumber (query ''max_fee'') ''max_fee'' (Some 0) None) (\<lambda>a2.
      and_then (validateNumber (query ''min_rating'') ''min_rating'' (Some 0) (Some 5)) (\<lambda>a3.
      and_then (validateNumber (query ''max_rating'') ''max_rating'' (Some 0) (Some 5)) (\<lambda>a4.
      and_then (validateInteger (query ''min_credits'') ''min_credits'' (Some 1) None) (\<lambda>a5.
      and_then (validateInteger (query ''max_credits'') ''max_credits'' (Some 1) None) (\<lambda>a6.
      and_then (validateInteger (query ''min_duration_weeks'') ''min_duration_weeks'' (Some 1) None) (\<lambda>a7.
      and_then (validateInteger (query ''max_duration_weeks'') ''max_duration_weeks'' (Some 1) None) (\<lambda>a8.
      and_then (validateInteger (query ''year_offered'') ''year_offered'' (Some 1900) (Some 2100)) (\<lambda>a9.
      and_then (validateInteger page_p ''page'' (Some 1) None) (\<lambda>a10.
      and_then (validateInteger per_page_p ''per_page'' (Some 1) (Some 100)) (\<lambda>a11.
      Inr \<lparr>v_min_fee = a1, v_max_fee = a2, v_min_rating = a3, v_max_rating = a4,
           v_min_credits = a5, v_max_credits = a6, v_min_duration_weeks = a7,
           v_max_duration_weeks = a8, v_year_offered = a9, v_page = a10,
           v_per_page = a11\<rparr>))))))))))))"

text \<open>Step 3: the enum parameters; \<open>None\<close> when all of them pass.\<close>

definition validate_enums :: "(string \<rightharpoonup> string) \<Rightarrow> courses_error option" where
  "validate_enums query =
     (let sort_by = (case query ''sort_by'' of None \<Rightarrow> ''course_id'' | Some v \<Rightarrow> v);
          sort_dir = (case query ''sort_dir'' of None \<Rightarrow> ''asc'' | Some v \<Rightarrow> v)
      in
      if truthy_str (query ''level'') \<and> toUpperCase (the (query ''level'')) \<notin> set validLevels
      then Some Invalid_level_parameter
      else if truthy_str (query ''delivery_mode'')
            \<and> toLowerCase (the (query ''delivery_mode'')) \<notin> set validDeliveryModes
      then Some Invalid_delivery_mode_parameter
      else if sort_by \<noteq> [] \<and> sort_by \<notin> set validSortColumns
      then Some Invalid_sort_by_parameter
      else if sort_dir \<noteq> [] \<and> toLowerCase sort_dir \<notin> set validSortDirections
      then Some Invalid_sort_dir_parameter
      else None)"

text \<open>Step 4: the conditions.\<close>

definition courses_conditions :: "(string \<rightharpoonup> string) \<Rightarrow> validated \<Rightarrow> builder" where
  "courses_conditions query vp =
     (let b0 = new_builder;
          b1 = (if truthy_str (query ''q'') \<and> trim (the (query ''q'')) \<noteq> []
                then push like_fragment (S (''%'' @ trim (the (query ''q'')) @ ''%'')) b0 else b0);
          b2 = (if truthy_str (query ''department'') \<and> trim (the (query ''department'')) \<noteq> []
                then push (column_fragment ''department ILIKE '')
                       (S (trim (the (query ''department'')))) b1
                else b1);
          b3 = (if truthy_str (query ''level'')
                then push (column_fragment ''level = '') (S (toUpperCase (the (query ''level'')))) b2
                else b2);
          b4 = (if truthy_str (query ''delivery_mode'')
                then push (column_fragment ''delivery_mode = '')
                       (S (toLowerCase (the (query ''delivery_mode'')))) b3
                else b3);
          b5 = (if truthy_str (query ''year_offered'')
                then push (column_fragment ''year_offered = '') (param_of (v_year_offered vp)) b4
                else b4);
          b6 = (if v_min_fee vp \<noteq> None
                then push (column_fragment ''tuition_fee_inr >= '') (param_of (v_min_fee vp)) b5
                else b5);
          b7 = (if v_max_fee vp \<noteq> None
                then push (column_fragment ''tuition_fee_inr <= '') (param_of (v_max_fee vp)) b6
                else b6);
          b8 = (if v_min_rating vp \<noteq> None
                then push (column_fragment ''rating >= '') (param_of (v_min_rating vp)) b7
                else b7);
          b9 = (if v_max_rating vp \<noteq> None
                then push (column_fragment ''rating <= '') (param_of (v_max_rating vp)) b8
                else b8);
          b10 = (if v_min_credits vp \<noteq> None
                 then push (column_fragment ''credits >= '') (param_of (v_min_credits vp)) b9
                 else b9);
          b11 = (if v_max_credits vp \<noteq> None
                 then push (column_fragment ''credits <= '') (param_of (v_max_credits vp)) b10
                 else b10);
          b12 = (if v_min_duration_weeks vp \<noteq> None
                 then push (column_fragment ''duration_weeks >= '')
                        (param_of (v_min_duration_weeks vp)) b11
                 else b11);
          b13 = (if v_max_duration_weeks vp \<noteq> None
                 then push (column_fragment ''duration_weeks <= '')
                        (param_of (v_max_duration_weeks vp)) b12
                 else b12)
      in b13)"

text \<open>Steps 5 to 10; \<open>count\<close> is the store's answer to the count query.\<close>

definition courses_query ::
  "(fragment list \<Rightarrow> jsval list \<Rightarrow> nat) \<Rightarrow> (string \<rightharpoonup> string) \<Rightarrow> validated \<Rightarrow> search_result" where
  "courses_query count query vp =
     (let sort_by = (case query ''sort_by'' of None \<Rightarrow> ''course_id'' | Some v \<Rightarrow> v);
          sort_dir = (case query ''sort_dir'' of None \<Rightarrow> ''asc'' | Some v \<Rightarrow> v);
          b = courses_conditions query vp;
          totalCount = count (conditions b) (queryParams b);
          totalPages = Math_ceil (js_div (Num (of_nat totalCount)) (ToNumber (v_per_page vp)));
          offs = js_mul (js_sub (ToNumber (v_page vp)) (Num 1)) (ToNumber (v_per_page vp))
      in \<lparr>main_query =
             \<lparr>where_conditions = conditions b,
              order_by = sort_by @ '' '' @ toUpperCase sort_dir,
              limit = P (paramCounter b),
              offset = P (paramCounter b + 1),
              params = queryParams b @ [param_of (v_per_page vp), N offs]\<rparr>,
           meta_of =
             \<lparr>total_count = totalCount, page = param_of (v_page vp),
              per_page = param_of (v_per_page vp),
              total_pages = totalPages,
              has_next_page = js_less (ToNumber (v_page vp)) totalPages,
              has_prev_page = js_less (Num 1) (ToNumber (v_page vp))\<rparr>\<rparr>)"

definition courses_handler ::
  "(fragment list \<Rightarrow> jsval list \<Rightarrow> nat) \<Rightarrow> (string \<rightharpoonup> string) \<Rightarrow> courses_error + search_result" where
  "courses_handler count query =
     and_then (validate_params query) (\<lambda>vp.
       case validate_enums query of
         Some e \<Rightarrow> Inl e
       | None \<Rightarrow> Inr (courses_query count query vp))"


section \<open>What a compiled query is to be\<close>

text \<open>
  The invariant of a compiled query in words, for comparison with the code: the
  conditions mention the placeholders \<open>$1\<close> to \<open>$n\<close> and no other, \<open>LIMIT\<close> and \<open>OFFSET\<close>
  are \<open>$(n+1)\<close> and \<open>$(n+2)\<close>, and there are \<open>n + 2\<close> parameters.
\<close>

definition Query_Spec_invariant :: "select_query \<Rightarrow> bool" where
  "Query_Spec_invariant m =
     (let n = card (set (placeholders (where_conditions m)))
      in set (placeholders (where_conditions m)) = {1..n}
         \<and> length (params m) = n + 2
         \<and> limit m = P (n + 1) \<and> offset m = P (n + 2))"

text \<open>The invariant of a builder between two statements: the \<open>i\<close>-th condition mentions the
  placeholder \<open>i + 1\<close> only, and a parameter is stored for each condition.\<close>

definition builder_ok :: "builder \<Rightarrow> bool" where
  "builder_ok b =
     (length (queryParams b) = length (conditions b)
      \<and> paramCounter b = length (conditions b) + 1
      \<and> (\<forall>i < length (conditions b). set (placeholders [conditions b ! i]) = {i + 1}))"

text \<open>A builder whose first condition is the text search, bound to \<open>v\<close>.\<close>

definition search_first :: "jsval \<Rightarrow> builder \<Rightarrow> bool" where
  "search_first v b =
     (conditions b \<noteq> [] \<and> queryParams b \<noteq> []
      \<and> conditions b ! 0 = like_fragment 1 \<and> queryParams b ! 0 = v)"



text \<open>Requests for worked examples: the credits bounds reversed, a page of 0, a text
  search with one more filter on each route, and a store without rows.\<close>

definition reversed_credits :: "string \<rightharpoonup> string" where
  "reversed_credits = [''min_credits'' \<mapsto> ''10'', ''max_credits'' \<mapsto> ''4'']"

definition page_zero :: "string \<rightharpoonup> string" where
  "page_zero = [''page'' \<mapsto> ''0'']"

definition law_filters :: filters where
  "law_filters = empty_filters\<lparr>q := Some ''law'', min_fee := Some (Num 100)\<rparr>"

definition law_query :: "string \<rightharpoonup> string" where
  "law_query = [''q'' \<mapsto> '' law '', ''max_credits'' \<mapsto> ''4'']"

definition no_rows :: "fragment list \<Rightarrow> jsval list \<Rightarrow> nat" where
  "no_rows cs ps = 0"


section \<open>Properties\<close>

subsection \<open>Lemmas on doubles\<close>

text \<open>
  \<open>double_of\<close> rounds to the grid of the binade: a finite result is a multiple of the unit
  of the binade of its argument, with a significand of at most 53 bits, and is at most
  half a unit away from the argument; an integer of at most 53 bits is left as it is.
\<close>

lemma round_half_even_near: "\<bar>of_int (round_half_even y) - y\<bar> \<le> 1 / 2"
proof -
  define n where "n = \<lfloor>y\<rfloor>"
  define d where "d = y - of_int n"
  have d: "0 \<le> d" "d < 1" unfolding d_def n_def by linarith+
  have y: "y = of_int n + d" by (simp add: d_def)
  have "\<bar>of_int (nearest_even n d) - (of_int n + d)\<bar> \<le> 1 / 2"
    using d unfolding nearest_even_def by (auto simp: abs_if)
  then show ?thesis
    unfolding round_half_even_def n_def[symmetric] d_def[symmetric] y[symmetric] .
qed

lemma ilog2_nonneg: "0 \<le> ilog2 n"
  by (induction n rule: ilog2.induct) (subst ilog2.simps, simp)

lemma ilog2_bounds:
  "1 \<le> n \<Longrightarrow> 2 ^ nat (ilog2 n) \<le> n \<and> n < 2 * 2 ^ nat (ilog2 n)"
proof (induction n rule: ilog2.induct)
  case (1 n)
  show ?case
  proof (cases "n < 2")
    case True
    with 1(2) have "n = 1" by simp
    then show ?thesis by (subst (1 2) ilog2.simps) simp
  next
    case False
    then have h: "2 ^ nat (ilog2 (n div 2)) \<le> n div 2 \<and> n div 2 < 2 * 2 ^ nat (ilog2 (n div 2))"
      using 1 by simp
    have e: "ilog2 n = 1 + ilog2 (n div 2)" using False by (subst ilog2.simps) simp
    have p: "(2::int) ^ nat (1 + ilog2 (n div 2)) = 2 * 2 ^ nat (ilog2 (n div 2))"
      using ilog2_nonneg[of "n div 2"] by (simp add: nat_add_distrib)
    from h show ?thesis unfolding e p by linarith
  qed
qed


lemma power_of_powi: "b \<noteq> 0 \<Longrightarrow> power_of b e = b powi e"
proof (induction b e rule: power_of.induct)
  case (1 b e)
  show ?case
  proof (cases "e < 0")
    case True
    with 1 have "power_of b (- e) = b powi (- e)" by simp
    with True show ?thesis
      by (subst power_of.simps) (simp add: power_int_minus field_simps)
  next
    case False
    show ?thesis
    proof (cases "e = 0")
      case True
      then show ?thesis by (subst power_of.simps) simp
    next
      case nz: False
      define k where "k = e div 2"
      from nz False 1 have h: "power_of b k = b powi k" by (simp add: k_def)
      have sq: "b powi k * b powi k = b powi (k + k)"
        using \<open>b \<noteq> 0\<close> power_int_add[of b k k] by (simp add: mult_2[symmetric])
      have "square_step (even e) b (b powi k) = b powi e"
      proof (cases "even e")
        case True
        then have "k + k = e" unfolding k_def by presburger
        with True sq show ?thesis by (simp add: square_step_def)
      next
        case odd: False
        then have e: "1 + (k + k) = e" unfolding k_def by presburger
        have "b * b powi (k + k) = b powi (1 + (k + k))"
          using \<open>b \<noteq> 0\<close> power_int_add[of b 1 "k + k"] by simp
        with odd sq e show ?thesis by (simp add: square_step_def mult.assoc)
      qed
      with False nz h show ?thesis
        by (subst power_of.simps) (simp add: k_def)
    qed
  qed
qed


lemma ilog2_powi:
  assumes "1 \<le> n"
  shows "(2::rat) powi ilog2 n \<le> of_int n" and "of_int n < (2::rat) powi (ilog2 n + 1)"
proof -
  from ilog2_bounds[OF assms] have lo: "2 ^ nat (ilog2 n) \<le> n" and hi: "n < 2 * 2 ^ nat (ilog2 n)"
    by simp_all
  have e: "(2::rat) powi ilog2 n = 2 ^ nat (ilog2 n)"
    using ilog2_nonneg[of n] by (simp add: power_int_def)
  have e1: "(2::rat) powi (ilog2 n + 1) = 2 * 2 ^ nat (ilog2 n)"
    using ilog2_nonneg[of n] by (simp add: power_int_def nat_add_distrib)
  have "(of_int (2 ^ nat (ilog2 n)) :: rat) \<le> of_int n" using lo by (simp only: of_int_le_iff)
  then show "(2::rat) powi ilog2 n \<le> of_int n" by (simp add: e)
  have "(of_int n :: rat) < of_int (2 * 2 ^ nat (ilog2 n))" using hi by (simp only: of_int_less_iff)
  then show "of_int n < (2::rat) powi (ilog2 n + 1)" by (simp add: e1)
qed

lemma binade_bounds:
  assumes "x \<noteq> 0"
  shows "2 powi binade x \<le> \<bar>x\<bar> \<and> \<bar>x\<bar> < 2 powi (binade x + 1)"
proof -
  obtain p q where pq: "quotient_of \<bar>x\<bar> = (p, q)" by (cases "quotient_of \<bar>x\<bar>")
  have q: "0 < q" using quotient_of_denom_pos[OF pq] .
  have x: "\<bar>x\<bar> = of_int p / of_int q" using quotient_of_div[OF pq] .
  have "0 < \<bar>x\<bar>" using assms by simp
  with x q have "0 < (of_int p :: rat)" by (simp add: zero_less_divide_iff)
  then have p: "1 \<le> p" by simp
  from q have q1: "1 \<le> q" by simp
  define a where "a = ilog2 p"
  define b where "b = ilog2 q"
  note A = ilog2_powi[OF p, folded a_def]
  note B = ilog2_powi[OF q1, folded b_def]
  have pos: "0 < (2::rat) powi a" "0 < (2::rat) powi b" "0 < (2::rat) powi (b + 1)"
    "0 < (of_int q :: rat)" using q by simp_all
  have "2 powi (a - b - 1) = (2::rat) powi a / 2 powi (b + 1)"
    by (simp add: power_int_diff algebra_simps)
  also have "\<dots> < of_int p / of_int q"
    using pos A(1) B(2) by (intro frac_less2) simp_all
  finally have lo: "2 powi (a - b - 1) < \<bar>x\<bar>" by (simp only: x)
  have "of_int p / of_int q < (2::rat) powi (a + 1) / 2 powi b"
    using pos A(2) B(1) p by (intro frac_less) simp_all
  also have "\<dots> = 2 powi (a - b + 1)"
    by (simp add: power_int_diff algebra_simps)
  finally have hi: "\<bar>x\<bar> < 2 powi (a - b + 1)" by (simp only: x)
  have bin: "binade x = (if 2 powi (a - b) \<le> \<bar>x\<bar> then a - b else a - b - 1)"
    by (simp add: binade_def pq floor_log_def power_of_powi a_def b_def)
  show ?thesis
  proof (cases "2 powi (a - b) \<le> \<bar>x\<bar>")
    case True
    with hi show ?thesis by (simp add: bin)
  next
    case False
    with lo show ?thesis by (simp add: bin)
  qed
qed


lemma in_units_near:
  assumes "0 < u"
  shows "\<bar>in_units u x - x\<bar> \<le> u / 2"
proof -
  define k :: rat where "k = of_int (round_half_even (x / u))"
  have "in_units u x - x = (k - x / u) * u"
    using assms by (simp add: in_units_def k_def field_simps)
  then have "\<bar>in_units u x - x\<bar> = \<bar>k - x / u\<bar> * u"
    using assms by (simp add: abs_mult)
  also have "\<dots> \<le> 1 / 2 * u"
    using round_half_even_near[of "x / u"] assms unfolding k_def
    by (intro mult_right_mono) simp_all
  finally show ?thesis by simp
qed

lemma double_of_near:
  assumes "double_of x = Num d"
  shows "\<exists>m. d = of_int m * 2 powi (max (binade x) (- 1022) - 52) \<and> \<bar>m\<bar> \<le> 2 ^ 53"
    and "\<bar>d - x\<bar> \<le> 2 powi (max (binade x) (- 1022) - 53)"
proof -
  define e where "e = max (binade x) (- 1022)"
  define u :: rat where "u = 2 powi (e - 52)"
  have u: "0 < u" by (simp add: u_def)
  have half: "u / 2 = 2 powi (e - 53)"
    by (simp add: u_def power_int_diff)
  show "\<exists>m. d = of_int m * 2 powi (max (binade x) (- 1022) - 52) \<and> \<bar>m\<bar> \<le> 2 ^ 53"
  proof (cases "x = 0")
    case True
    with assms have "d = 0" by (simp add: double_of_def)
    then show ?thesis by (intro exI[of _ 0]) simp
  next
    case False
    define m where "m = round_half_even (\<bar>x\<bar> / u)"
    from False assms have f: "finite_or_not (x < 0) (of_int m * u) = Num d"
      by (simp add: double_of_def in_units_def power_of_powi m_def u_def e_def)
    then have d: "d = (if x < 0 then - (of_int m * u) else of_int m * u)"
      by (simp add: finite_or_not_def split: if_splits)
    have "\<bar>x\<bar> < 2 powi (binade x + 1)" using binade_bounds[OF False] by simp
    also have "\<dots> \<le> 2 powi (e + 1)"
      by (intro power_int_increasing) (simp_all add: e_def)
    finally have "\<bar>x\<bar> / u < 2 powi (e + 1) / u" using u by (simp add: divide_strict_right_mono)
    also have "2 powi (e + 1) / u = 2 ^ 53"
      by (simp add: u_def power_int_diff[symmetric])
    finally have y: "\<bar>x\<bar> / u < 2 ^ 53" .
    have "0 \<le> \<bar>x\<bar> / u" using u by simp
    have near: "\<bar>of_int m - \<bar>x\<bar> / u\<bar> \<le> 1 / 2"
      unfolding m_def by (rule round_half_even_near)
    define z where "z = \<bar>x\<bar> / u"
    have z: "0 \<le> z" "z < 9007199254740992"
      using \<open>0 \<le> \<bar>x\<bar> / u\<close> y by (simp_all add: z_def)
    from near have "\<bar>of_int m - z\<bar> \<le> 1 / 2" by (simp only: z_def)
    with z have "(of_int m :: rat) < 9007199254740993" and "(- 1 :: rat) < of_int m"
      by linarith+
    then have "m < 9007199254740993" and "- 1 < m" by simp_all
    then have m: "\<bar>m\<bar> \<le> 2 ^ 53" by simp
    show ?thesis
    proof (cases "x < 0")
      case True
      with d have "d = of_int (- m) * u" by simp
      with m show ?thesis unfolding u_def e_def by (intro exI[of _ "- m"]) simp
    next
      case False
      with d have "d = of_int m * u" by simp
      with m show ?thesis unfolding u_def e_def by (intro exI[of _ m]) simp
    qed
  qed
  show "\<bar>d - x\<bar> \<le> 2 powi (max (binade x) (- 1022) - 53)"
  proof (cases "x = 0")
    case True
    with assms have "d = 0" by (simp add: double_of_def)
    with True show ?thesis by simp
  next
    case False
    from False assms have f: "finite_or_not (x < 0) (in_units u \<bar>x\<bar>) = Num d"
      by (simp add: double_of_def power_of_powi u_def e_def)
    then have d: "d = (if x < 0 then - in_units u \<bar>x\<bar> else in_units u \<bar>x\<bar>)"
      by (simp add: finite_or_not_def split: if_splits)
    have "\<bar>d - x\<bar> = \<bar>in_units u \<bar>x\<bar> - \<bar>x\<bar>\<bar>"
      unfolding d by (simp add: abs_if)
    also have "\<dots> \<le> u / 2" using u by (rule in_units_near)
    finally show ?thesis by (simp add: half e_def)
  qed
qed

lemma round_half_even_int: "round_half_even (of_int k) = k"
  by (simp add: round_half_even_def nearest_even_def)

lemma in_units_exact:
  assumes "u \<noteq> 0" and "x / u = of_int k"
  shows "in_units u x = x"
proof -
  have "in_units u x = of_int k * u" by (simp add: in_units_def assms(2) round_half_even_int)
  also have "\<dots> = x" using assms by (simp add: field_simps)
  finally show ?thesis .
qed

lemma double_of_int:
  assumes "\<bar>n\<bar> \<le> 2 ^ 53"
  shows "double_of (of_int n) = Num (of_int n)"
proof (cases "n = 0")
  case True
  then show ?thesis by (simp add: double_of_def)
next
  case False
  define x :: rat where "x = of_int n"
  have x0: "x \<noteq> 0" using False by (simp add: x_def)
  have ax: "\<bar>x\<bar> = of_int \<bar>n\<bar>" by (simp add: x_def)
  have x1: "1 \<le> \<bar>x\<bar>" using False unfolding ax by simp
  have xb: "\<bar>x\<bar> \<le> 2 ^ 53"
  proof -
    have "(of_int \<bar>n\<bar> :: rat) \<le> of_int (2 ^ 53)" using assms by (simp only: of_int_le_iff)
    then show ?thesis by (simp add: ax)
  qed
  define e where "e = binade x"
  from binade_bounds[OF x0] have lo: "2 powi e \<le> \<bar>x\<bar>" and hi: "\<bar>x\<bar> < 2 powi (e + 1)"
    by (simp_all add: e_def)
  have e0: "0 \<le> e"
  proof (rule ccontr)
    assume "\<not> 0 \<le> e"
    then have "e + 1 \<le> 0" by simp
    then have "(2::rat) powi (e + 1) \<le> 2 powi 0" by (intro power_int_increasing) simp_all
    with hi x1 show False by simp
  qed
  have e53: "e \<le> 53"
  proof (rule ccontr)
    assume "\<not> e \<le> 53"
    then have "54 \<le> e" by simp
    then have "(2::rat) powi 54 \<le> 2 powi e" by (intro power_int_increasing) simp_all
    with lo xb show False by simp
  qed
  have m: "max e (- 1022) = e" using e0 by simp
  define u :: rat where "u = 2 powi (e - 52)"
  have u: "0 < u" by (simp add: u_def)
  have "\<exists>k. \<bar>x\<bar> / u = of_int k"
  proof (cases "e \<le> 52")
    case True
    have "\<bar>x\<bar> / u = \<bar>x\<bar> * 2 powi (52 - e)"
      by (simp add: u_def power_int_diff field_simps)
    also have "2 powi (52 - e) = (2::rat) ^ nat (52 - e)"
      using True by (simp add: power_int_def)
    also have "\<bar>x\<bar> * 2 ^ nat (52 - e) = of_int (\<bar>n\<bar> * 2 ^ nat (52 - e))"
      by (simp add: ax)
    finally show ?thesis by blast
  next
    case False
    with e53 have e: "e = 53" by simp
    from lo xb have "\<bar>x\<bar> = 2 ^ 53" by (simp add: e)
    then have "\<bar>x\<bar> / u = of_int (2 ^ 52)" by (simp add: u_def e)
    then show ?thesis by blast
  qed
  then obtain k where k: "\<bar>x\<bar> / u = of_int k" by blast
  have r: "in_units u \<bar>x\<bar> = \<bar>x\<bar>" using u k by (intro in_units_exact) simp_all
  have fin: "\<not> 2 powi 1024 \<le> \<bar>x\<bar>"
  proof -
    have "\<bar>x\<bar> < 2 powi 1024" using xb by (simp add: power_int_def) 
    then show ?thesis by simp
  qed
  have "double_of x = finite_or_not (x < 0) (in_units u \<bar>x\<bar>)"
    using x0 by (simp add: double_of_def power_of_powi u_def e_def m[unfolded e_def])
  also have "\<dots> = finite_or_not (x < 0) \<bar>x\<bar>" by (simp only: r)
  also have "\<dots> = Num x"
    using fin by (simp add: finite_or_not_def power_of_powi)
  finally show ?thesis by (simp only: x_def)
qed


subsection \<open>Lemmas on the comparison route\<close>

lemma set_new_Set_aux: "set (foldl set_add acc xs) = set acc \<union> set xs"
  by (induction xs arbitrary: acc) (auto simp: set_add_def)

lemma set_new_Set: "set (new_Set xs) = set xs"
  by (simp add: new_Set_def set_new_Set_aux)

lemma new_Set_snoc: "new_Set (xs @ [x]) = set_add (new_Set xs) x"
  by (simp add: new_Set_def)

lemma new_Set_first_occurrence: "new_Set xs = rev (remdups (rev xs))"
proof (induction xs rule: rev_induct)
  case Nil
  show ?case by (simp add: new_Set_def)
next
  case (snoc x xs)
  have "set (new_Set xs) = set xs" by (rule set_new_Set)
  with snoc show ?case
    by (simp add: new_Set_snoc set_add_def)
qed

lemma distinct_new_Set: "distinct (new_Set xs)"
  by (simp add: new_Set_first_occurrence)

lemma order_case_nth:
  assumes "distinct ps" and "i < length ps"
  shows "order_case ps (ps ! i) = i + 1"
proof -
  have "find (\<lambda>index. ps ! index = ps ! i) [0..<length ps] = Some i"
    using assms by (auto simp: find_Some_iff nth_eq_iff_index_eq)
  then show ?thesis by (simp add: order_case_def)
qed

lemma order_case_inj:
  assumes "distinct ps"
  shows "inj_on (order_case ps) (set ps)"
proof (rule inj_onI)
  fix x y assume "x \<in> set ps" "y \<in> set ps" and eq: "order_case ps x = order_case ps y"
  then obtain i j where i: "i < length ps" "x = ps ! i" and j: "j < length ps" "y = ps ! j"
    by (auto simp: in_set_conv_nth)
  with eq assms show "x = y" by (simp add: order_case_nth)
qed

lemma order_case_sorted:
  assumes "distinct ps"
  shows "sorted (map (order_case ps) ps)"
proof -
  have "map (order_case ps) ps = map Suc [0..<length ps]"
    using assms by (auto intro!: nth_equalityI simp: order_case_nth)
  then show ?thesis by (simp add: sorted_map strict_mono_on_def sorted_wrt_map)
qed

lemma compare_query_ids:
  assumes "distinct (map course_id store)" and "distinct ps"
  shows "map course_id (compare_query store ps) = filter (\<lambda>i. i \<in> course_id ` set store) ps"
proof -
  define k where "k = order_case ps"
  define L where "L = map course_id (compare_query store ps)"
  define R where "R = filter (\<lambda>i. i \<in> course_id ` set store) ps"
  let ?rows = "filter (\<lambda>row. course_id row \<in> set ps) store"
  have dL: "distinct L"
    unfolding L_def compare_query_def using assms(1)
    by (metis distinct_map_filter distinct_map distinct_sort set_sort)
  have sL: "set L = set R"
    unfolding L_def R_def compare_query_def by auto
  have dR: "distinct R" using assms(2) by (simp add: R_def)
  have sub: "set R \<subseteq> set ps" by (auto simp: R_def)
  have inj: "inj_on k (set ps)"
    unfolding k_def by (rule order_case_inj[OF assms(2)])
  have injR: "inj_on k (set R)" using inj sub by (rule inj_on_subset)
  have injL: "inj_on k (set L)" using injR sL by simp
  have "map k L = map (\<lambda>row. k (course_id row)) (sort_key (\<lambda>row. k (course_id row)) ?rows)"
    unfolding L_def k_def compare_query_def by (simp add: comp_def)
  then have s1: "sorted (map k L)"
    by (simp only: sorted_sort_key)
  have s2: "sorted (map k R)"
    unfolding R_def k_def using order_case_sorted[OF assms(2)] by (rule sorted_filter)
  have d1: "distinct (map k L)" using dL injL by (simp add: distinct_map)
  have d2: "distinct (map k R)" using dR injR by (simp add: distinct_map)
  have "set (map k L) = set (map k R)" using sL by simp
  with s1 d1 s2 d2 have "map k L = map k R"
    by (rule sorted_distinct_set_unique)
  moreover have "inj_on k (set L \<union> set R)" using injR sL by simp
  ultimately have "L = R" by (simp add: inj_on_map_eq_map)
  then show ?thesis by (simp add: L_def R_def)
qed

lemma parse_ids_nonempty: "[] \<notin> set (parse_ids s)"
  by (simp add: parse_ids_def)

lemma compare_handler_Inr:
  "compare_handler store ids = Inr r \<longleftrightarrow>
     (\<exists>s. ids = Some s \<and> s \<noteq> [] \<and> parse_ids s \<noteq> [] \<and> length (parse_ids s) \<le> 4 \<and>
          r = (let uniqueIds = new_Set (parse_ids s);
                   foundCourses = compare_query store uniqueIds;
                   missingIds = filter (\<lambda>id. id \<notin> set (map course_id foundCourses)) uniqueIds
               in \<lparr>courses = foundCourses, missing_ids = missingIds,
                    meta = \<lparr>requested_count = length uniqueIds,
                             found_count = length foundCourses,
                             missing_count = length missingIds\<rparr>,
                    insights_of = (if length foundCourses > 1
                                   then Some (generateComparisonInsights foundCourses)
                                   else None)\<rparr>))"
proof -
  have f: "\<And>s. filter (\<lambda>id. id = []) (parse_ids s) = []"
    using parse_ids_nonempty by (auto simp: filter_empty_conv)
  show ?thesis
    unfolding compare_handler_def
    by (cases ids) (auto simp: Let_def f)
qed

lemma insights_present_iff:
  assumes "compare_handler store ids = Inr r"
  shows "insights_of r \<noteq> None \<longleftrightarrow> 1 < length (courses r)"
proof -
  from assms have r: "insights_of r =
      (if 1 < length (courses r) then Some (generateComparisonInsights (courses r)) else None)"
    by (auto simp: compare_handler_Inr Let_def)
  show ?thesis unfolding r by simp
qed

text \<open>The sum of a column that is delivered as strings is the text \<open>0\<close> followed by the
  strings, one after the other.\<close>

lemma string_sum_from: "foldl js_plus (S a) (map S ss) = S (a @ concat ss)"
  by (induction ss arbitrary: a) (simp_all add: js_plus_def ToString_def)

lemma string_sum_is_concatenation:
  "reduce_sum (map S (s # ss)) = S (''0'' @ s @ concat ss)"
  by (simp add: reduce_sum_def js_plus_def ToString_def Number_toString_def string_sum_from)

text \<open>The ratings 4.1 and 4.8 as doubles: their sum is rounded to the double below 8.9,
  ten times the mean to the double below 44.5, and the average is the double of 4.4.\<close>

lemma doubles_of_ratings:
  "double_of (41 / 10) = Num (2308094809027379 / 2 ^ 49)"
  "double_of (24 / 5) = Num (5404319552844595 / 2 ^ 50)"
  "double_of (22 / 5) = Num (2476979795053773 / 2 ^ 49)"
  by code_simp+

lemma average_of_double_ratings:
  "reduce_sum [N (Num (2308094809027379 / 2 ^ 49)), N (Num (5404319552844595 / 2 ^ 50))]
     = N (Num (1252563646362419 / 2 ^ 47))"
  "avg_of (decimal_stats [N (Num (2308094809027379 / 2 ^ 49)), N (Num (5404319552844595 / 2 ^ 50))])
     = Some (Num (2476979795053773 / 2 ^ 49))"
  by code_simp+

lemma sample_fee_range:
  "fee_range (generateComparisonInsights sample_store)
     = \<lparr>min_of = Some (Num 40001), max_of = Some (Num 50000), avg_of = Some (Num 45001)\<rparr>"
  by code_simp

lemma sample_credits_range:
  "credits_range (generateComparisonInsights sample_store)
     = \<lparr>min_of = Some (Num 3), max_of = Some (Num 4),
        avg_of = Some (Num (3715469692580659 / 2 ^ 50))\<rparr>"
  by code_simp

lemma sample_rating_sum:
  "reduce_sum (numeric_values rating sample_store) = S ''04.53.94.1''"
  by code_simp

lemma sample_rating_range:
  "rating_range (generateComparisonInsights sample_store)
     = \<lparr>min_of = Some (Num (8782019273372467 / 2 ^ 51)), max_of = Some (Num (9 / 2)),
        avg_of = Some NaN\<rparr>"
  by code_simp

lemma sample_ids: "new_Set (parse_ids ''3,1,3,2'') = [''3'', ''1'', ''2'']"
  by (simp add: parse_ids_def trim_def is_space_def new_Set_def set_add_def)

lemma sample_distinct: "distinct (map course_id sample_store)"
  by (simp add: sample_store_def)

lemma sample_found:
  "map course_id (compare_query sample_store [''3'', ''9'', ''1'']) = [''3'', ''1'']"
  by code_simp

lemma sample_all:
  "compare_query sample_store [''1'', ''2'', ''3''] = sample_store"
  by code_simp


subsection \<open>Claims on the comparison route\<close>

text \<open>
  C3, as stated: the request fails with the too-many-ids error exactly when the
  deduplicated ids exceed the cap. This fails for \<open>a,a,a,a,a\<close>: one id after
  deduplication, and the request is rejected.
\<close>

theorem too_many_ids_duplicates_counterexample:
  "\<not> (compare_handler [] (Some ''a,a,a,a,a'') = Inl Too_many_course_IDs
        \<longleftrightarrow> 4 < length (new_Set (parse_ids ''a,a,a,a,a'')))"
  by (simp add: compare_handler_def parse_ids_def trim_def is_space_def new_Set_def set_add_def)

text \<open>
  C3, amended: the cap of 4 is checked before the duplicates are removed. A request
  fails with the too-many-ids error exactly when it has more than 4 ids after splitting
  at the commas, trimming and dropping the empty pieces, duplicates counted.
\<close>

theorem too_many_ids_counts_duplicates:
  "compare_handler store ids = Inl Too_many_course_IDs \<longleftrightarrow>
     (\<exists>s. ids = Some s \<and> length (parse_ids s) > 4)"
proof -
  have f: "\<And>s. filter (\<lambda>id. id = []) (parse_ids s) = []"
    using parse_ids_nonempty by (auto simp: filter_empty_conv)
  have e: "parse_ids [] = []" by (simp add: parse_ids_def trim_def)
  show ?thesis
    unfolding compare_handler_def
    by (cases ids) (auto simp: Let_def f e)
qed

theorem too_many_ids_counts_duplicates_witness:
  "compare_handler sample_store (Some ''1,2,2,3,3'') = Inl Too_many_course_IDs
   \<and> length (parse_ids ''1,2,2,3,3'') = 5
   \<and> compare_handler sample_store (Some ''1,2,2,3'') \<noteq> Inl Too_many_course_IDs"
proof -
  have five: "length (parse_ids ''1,2,2,3,3'') = 5"
    and four: "length (parse_ids ''1,2,2,3'') = 4"
    by (simp_all add: parse_ids_def trim_def is_space_def)
  have "compare_handler sample_store (Some ''1,2,2,3,3'') = Inl Too_many_course_IDs"
    using too_many_ids_counts_duplicates[of sample_store "Some ''1,2,2,3,3''"] five by simp
  moreover have "compare_handler sample_store (Some ''1,2,2,3'') \<noteq> Inl Too_many_course_IDs"
    using too_many_ids_counts_duplicates[of sample_store "Some ''1,2,2,3''"] four by simp
  ultimately show ?thesis using five by simp
qed

text \<open>
  C8: the requested ids are deduplicated keeping the first occurrence of each, and the
  courses of the response are the requested ones that the table has, in that order, the
  table's key being unique; \<open>3,1,3,2\<close> gives the order 3, 1, 2.
\<close>

theorem compare_first_occurrence_order:
  assumes "distinct (map course_id store)" and "compare_handler store ids = Inr r"
  shows "\<exists>s. ids = Some s \<and>
           new_Set (parse_ids s) = rev (remdups (rev (parse_ids s))) \<and>
           map course_id (courses r)
             = filter (\<lambda>i. i \<in> course_id ` set store) (new_Set (parse_ids s))"
proof -
  from assms(2) obtain s where s: "ids = Some s"
    and c: "courses r = compare_query store (new_Set (parse_ids s))"
    by (auto simp: compare_handler_Inr Let_def)
  have "map course_id (courses r)
          = filter (\<lambda>i. i \<in> course_id ` set store) (new_Set (parse_ids s))"
    unfolding c using assms(1) distinct_new_Set by (rule compare_query_ids)
  with s show ?thesis by (simp add: new_Set_first_occurrence)
qed

theorem compare_first_occurrence_order_witness:
  "distinct (map course_id sample_store) \<and>
   (\<exists>r. compare_handler sample_store (Some ''3,1,3,2'') = Inr r \<and>
        map course_id (courses r) = [''3'', ''1'', ''2''])"
proof -
  obtain r where r: "compare_handler sample_store (Some ''3,1,3,2'') = Inr r"
    by (simp add: compare_handler_Inr parse_ids_def trim_def is_space_def)
  from compare_first_occurrence_order[OF sample_distinct r]
  obtain s where "Some ''3,1,3,2'' = Some s"
    and "map course_id (courses r)
           = filter (\<lambda>i. i \<in> course_id ` set sample_store) (new_Set (parse_ids s))"
    by blast
  then have "map course_id (courses r)
          = filter (\<lambda>i. i \<in> course_id ` set sample_store) [''3'', ''1'', ''2'']"
    using sample_ids by auto
  also have "\<dots> = [''3'', ''1'', ''2'']" by (simp add: sample_store_def)
  finally have m: "map course_id (courses r) = [''3'', ''1'', ''2'']" .
  show ?thesis
  proof (intro conjI exI[of _ r])
    show "distinct (map course_id sample_store)" by (rule sample_distinct)
    show "compare_handler sample_store (Some ''3,1,3,2'') = Inr r" by (rule r)
    show "map course_id (courses r) = [''3'', ''1'', ''2'']" by (rule m)
  qed
qed

text \<open>
  C9: the insights are to hold, for each of fee, rating and credits, the extrema and the
  rounded mean of the values that are not null. The code sums a column with \<open>+\<close> from 0,
  which joins strings. For the three rows of the sample table, whose ratings arrive as
  the strings \<open>4.5\<close>, \<open>3.9\<close> and \<open>4.1\<close>, the sum is the text \<open>04.53.94.1\<close>, which is no
  number: the average rating is \<open>NaN\<close>, beside the right extrema 3.9 and 4.5, where the
  mean rounded to one decimal place is 4.2. The fee and the credits, which arrive as
  numbers, have the averages 45001 and 3.3.
\<close>

theorem string_ratings_have_no_average:
  "\<exists>r ins. compare_handler sample_store (Some ''1,2,3'') = Inr r
     \<and> courses r = sample_store
     \<and> insights_of r = Some ins
     \<and> fee_range ins
         = \<lparr>min_of = Some (Num 40001), max_of = Some (Num 50000), avg_of = Some (Num 45001)\<rparr>
     \<and> credits_range ins
         = \<lparr>min_of = Some (Num 3), max_of = Some (Num 4), avg_of = Some (double_of (33 / 10))\<rparr>
     \<and> rating_range ins
         = \<lparr>min_of = Some (double_of (39 / 10)), max_of = Some (double_of (9 / 2)),
            avg_of = Some NaN\<rparr>"
proof -
  have ids: "new_Set (parse_ids ''1,2,3'') = [''1'', ''2'', ''3'']"
    by (simp add: parse_ids_def trim_def is_space_def new_Set_def set_add_def)
  obtain r where r: "compare_handler sample_store (Some ''1,2,3'') = Inr r"
    by (simp add: compare_handler_Inr parse_ids_def trim_def is_space_def)
  then have c: "courses r = sample_store"
    by (auto simp: compare_handler_Inr Let_def ids sample_all)
  have "1 < length sample_store" by (simp add: sample_store_def)
  with r have i: "insights_of r = Some (generateComparisonInsights sample_store)"
    by (auto simp: compare_handler_Inr Let_def ids sample_all)
  have d: "double_of (33 / 10) = Num (3715469692580659 / 2 ^ 50)"
    "double_of (39 / 10) = Num (8782019273372467 / 2 ^ 51)"
    "double_of (9 / 2) = Num (9 / 2)"
    by code_simp+
  show ?thesis
  proof (intro exI[of _ r] exI[of _ "generateComparisonInsights sample_store"] conjI)
    show "compare_handler sample_store (Some ''1,2,3'') = Inr r" by (rule r)
    show "courses r = sample_store" by (rule c)
    show "insights_of r = Some (generateComparisonInsights sample_store)" by (rule i)
    show "fee_range (generateComparisonInsights sample_store)
         = \<lparr>min_of = Some (Num 40001), max_of = Some (Num 50000), avg_of = Some (Num 45001)\<rparr>"
      by (rule sample_fee_range)
    show "credits_range (generateComparisonInsights sample_store)
         = \<lparr>min_of = Some (Num 3), max_of = Some (Num 4), avg_of = Some (double_of (33 / 10))\<rparr>"
      unfolding d by (rule sample_credits_range)
    show "rating_range (generateComparisonInsights sample_store)
         = \<lparr>min_of = Some (double_of (39 / 10)), max_of = Some (double_of (9 / 2)),
            avg_of = Some NaN\<rparr>"
      unfolding d by (rule sample_rating_range)
  qed
qed

text \<open>
  C10: in a response, the requested count is the found count plus the missing count, and
  the missing ids are the deduplicated requested ids that no returned course has, in the
  order of the request; the ids of the returned courses and the missing ids split the
  deduplicated request in two. The table's key is unique.
\<close>

theorem compare_counts_partition:
  assumes "distinct (map course_id store)" and "compare_handler store ids = Inr r"
  shows "requested_count (meta r) = found_count (meta r) + missing_count (meta r) \<and>
         found_count (meta r) = length (courses r) \<and>
         missing_count (meta r) = length (missing_ids r) \<and>
         (\<exists>s. ids = Some s \<and>
              requested_count (meta r) = length (new_Set (parse_ids s)) \<and>
              missing_ids r
                = filter (\<lambda>i. i \<notin> course_id ` set (courses r)) (new_Set (parse_ids s)) \<and>
              course_id ` set (courses r) \<union> set (missing_ids r) = set (new_Set (parse_ids s)) \<and>
              course_id ` set (courses r) \<inter> set (missing_ids r) = {})"
proof -
  from assms(2) obtain s where s: "ids = Some s"
    and c: "courses r = compare_query store (new_Set (parse_ids s))"
    and m: "missing_ids r
              = filter (\<lambda>i. i \<notin> set (map course_id (courses r))) (new_Set (parse_ids s))"
    and rc: "requested_count (meta r) = length (new_Set (parse_ids s))"
    and fc: "found_count (meta r) = length (courses r)"
    and mc: "missing_count (meta r) = length (missing_ids r)"
    by (auto simp: compare_handler_Inr Let_def)
  define U where "U = new_Set (parse_ids s)"
  define F where "F = map course_id (courses r)"
  have F: "F = filter (\<lambda>i. i \<in> course_id ` set store) U"
    unfolding F_def U_def c using assms(1) distinct_new_Set by (rule compare_query_ids)
  have M: "missing_ids r = filter (\<lambda>i. i \<notin> set F) U"
    using m by (simp add: F_def U_def)
  have M': "missing_ids r = filter (\<lambda>i. \<not> i \<in> course_id ` set store) U"
    unfolding M F by (rule filter_cong) auto
  have "length U = length F + length (missing_ids r)"
    unfolding F M' by (rule sum_length_filter_compl[symmetric])
  moreover have "length F = length (courses r)" by (simp add: F_def)
  moreover have "set F \<union> set (missing_ids r) = set U" unfolding M F by auto
  moreover have "set F \<inter> set (missing_ids r) = {}" unfolding M by auto
  ultimately show ?thesis
    using s rc fc mc M by (simp add: F_def U_def)
qed

theorem compare_counts_partition_witness:
  "distinct (map course_id sample_store) \<and>
   (\<exists>r. compare_handler sample_store (Some ''3,9,3,1'') = Inr r
      \<and> requested_count (meta r) = 3 \<and> found_count (meta r) = 2 \<and> missing_count (meta r) = 1
      \<and> map course_id (courses r) = [''3'', ''1''] \<and> missing_ids r = [''9''])"
proof -
  have ids: "new_Set (parse_ids ''3,9,3,1'') = [''3'', ''9'', ''1'']"
    by (simp add: parse_ids_def trim_def is_space_def new_Set_def set_add_def)
  obtain r where r: "compare_handler sample_store (Some ''3,9,3,1'') = Inr r"
    by (simp add: compare_handler_Inr parse_ids_def trim_def is_space_def)
  then have c: "map course_id (courses r) = [''3'', ''1'']"
    by (auto simp: compare_handler_Inr Let_def ids sample_found)
  then have cs: "course_id ` set (courses r) = {''3'', ''1''}"
    by (metis list.set_map list.simps(15) empty_set)
  note fact = compare_counts_partition[OF sample_distinct r]
  from fact obtain s where s: "Some ''3,9,3,1'' = Some s"
    and rq: "requested_count (meta r) = length (new_Set (parse_ids s))"
    and ms: "missing_ids r
               = filter (\<lambda>i. i \<notin> course_id ` set (courses r)) (new_Set (parse_ids s))"
    by blast
  from s have s': "s = ''3,9,3,1''" by simp
  have m: "missing_ids r = [''9'']" unfolding ms s' ids cs by simp
  have q: "requested_count (meta r) = 3" unfolding rq s' ids by simp
  from fact have "found_count (meta r) = length (courses r)"
    and "missing_count (meta r) = length (missing_ids r)" by blast+
  with c m have f: "found_count (meta r) = 2" and k: "missing_count (meta r) = 1"
    by (simp_all add: length_map[of course_id "courses r", symmetric] del: length_map)
  show ?thesis
  proof (intro conjI exI[of _ r])
    show "distinct (map course_id sample_store)" by (rule sample_distinct)
    show "compare_handler sample_store (Some ''3,9,3,1'') = Inr r" by (rule r)
  qed (rule q f k c m)+
qed


subsection \<open>Lemmas on the search routes\<close>

lemma placeholders_like [simp]: "placeholders [like_fragment n] = [n, n]"
  by (simp add: placeholders_def like_fragment_def)

lemma placeholders_column [simp]: "placeholders [column_fragment t n] = [n]"
  by (simp add: placeholders_def column_fragment_def)

lemma builder_ok_new: "builder_ok new_builder"
  by (simp add: builder_ok_def new_builder_def)

lemma builder_ok_push:
  assumes "builder_ok b" and "set (placeholders [fragment (paramCounter b)]) = {paramCounter b}"
  shows "builder_ok (push fragment v b)"
  using assms by (auto simp: builder_ok_def push_def nth_append less_Suc_eq)

lemma builder_ok_like:
  "builder_ok b \<Longrightarrow> builder_ok (if c then push like_fragment v b else b)"
  by (simp add: builder_ok_push)

lemma builder_ok_column:
  "builder_ok b \<Longrightarrow> builder_ok (if c then push (column_fragment t) v b else b)"
  by (simp add: builder_ok_push)

lemma builder_ok_ask: "builder_ok (ask_conditions f)"
  unfolding ask_conditions_def Let_def
  by (intro builder_ok_like builder_ok_column builder_ok_new)

lemma builder_ok_courses: "builder_ok (courses_conditions query vp)"
  unfolding courses_conditions_def Let_def
  by (intro builder_ok_like builder_ok_column builder_ok_new)

lemma set_placeholders: "set (placeholders fs) = (\<Union>f\<in>set fs. set (placeholders [f]))"
  by (auto simp: placeholders_def)

lemma builder_ok_placeholders:
  assumes "builder_ok b"
  shows "set (placeholders (conditions b)) = {1..length (conditions b)}"
proof -
  define fs where "fs = conditions b"
  have each: "\<And>i. i < length fs \<Longrightarrow> set (placeholders [fs ! i]) = {Suc i}"
    using assms by (simp add: builder_ok_def fs_def)
  have "set fs = (\<lambda>i. fs ! i) ` {..<length fs}"
    by (auto simp: set_conv_nth)
  then have "set (placeholders fs) = (\<Union>i\<in>{..<length fs}. set (placeholders [fs ! i]))"
    unfolding set_placeholders[of fs] by simp
  also have "\<dots> = (\<Union>i\<in>{..<length fs}. {Suc i})"
    using each by simp
  also have "\<dots> = Suc ` {..<length fs}" by blast
  also have "\<dots> = {1..length fs}" by (rule image_Suc_lessThan)
  finally show ?thesis by (simp add: fs_def)
qed

lemma search_first_push:
  "search_first v b \<Longrightarrow> search_first v (if c then push fragment w b else b)"
  by (simp add: search_first_def push_def nth_append)

lemma search_first_start:
  "search_first v (push like_fragment v new_builder)"
  by (simp add: search_first_def push_def new_builder_def)

lemma search_first_ask:
  assumes "truthy_str (q f)"
  shows "search_first (S (''%'' @ the (q f) @ ''%'')) (ask_conditions f)"
  unfolding ask_conditions_def Let_def
  apply (simp only: assms if_True)
  apply (intro search_first_push)
  apply (rule search_first_start)
  done

lemma search_first_courses:
  assumes "truthy_str (query ''q'')" and "trim (the (query ''q'')) \<noteq> []"
  shows "search_first (S (''%'' @ trim (the (query ''q'')) @ ''%'')) (courses_conditions query vp)"
  unfolding courses_conditions_def Let_def
  apply (simp only: assms simp_thms if_True)
  apply (intro search_first_push)
  apply (rule search_first_start)
  done

lemma builder_ok_invariant:
  assumes "builder_ok b"
  shows "Query_Spec_invariant
           \<lparr>where_conditions = conditions b, order_by = ob, limit = P (paramCounter b),
            offset = P (paramCounter b + 1), params = queryParams b @ [x, y]\<rparr>"
  using assms builder_ok_placeholders[OF assms]
  by (simp add: Query_Spec_invariant_def builder_ok_def)

lemma builder_ok_others:
  assumes "builder_ok b" and "0 < i" and "i < length (conditions b)"
  shows "1 \<notin> set (placeholders [conditions b ! i])"
  using assms by (simp add: builder_ok_def)

lemma courses_handler_Inr:
  "courses_handler count query = Inr r \<longleftrightarrow>
     (\<exists>vp. validate_params query = Inr vp \<and> validate_enums query = None
           \<and> r = courses_query count query vp)"
  by (auto simp: courses_handler_def and_then_def split: sum.splits option.splits)

lemma parseInt_cases: "parseInt s = NaN \<or> (\<exists>x. parseInt s = Num x)"
  by (simp add: parseInt_def Let_def split: prod.splits)

lemma parseInt_empty: "parseInt [] = NaN"
  by (simp add: parseInt_def strip_sign_def)

lemma ask_page_value:
  "Math_max2 (Num 1) (or_else (parseInt s) (Num 1))
     = Num (case parseInt s of Num x \<Rightarrow> if x = 0 then 1 else max 1 x | _ \<Rightarrow> 1)"
  using parseInt_cases[of s] by (auto simp: Math_max2_def or_else_def max_def)

lemma ask_per_page_value:
  "Math_min2 (Num 100) (Math_max2 (Num 1) (or_else (parseInt s) (Num 10)))
     = Num (case parseInt s of Num x \<Rightarrow> if x = 0 then 10 else min 100 (max 1 x) | _ \<Rightarrow> 10)"
  using parseInt_cases[of s] by (auto simp: Math_min2_def Math_max2_def or_else_def max_def min_def)

lemma ask_handler_Inr:
  assumes "truthy_str (question body)"
  shows "ask_handler count body =
     Inr (executeFilteredQuery count (parseNaturalLanguageQuery (the (question body)))
            (Num (case parseInt (case body_page body of None \<Rightarrow> ''1'' | Some v \<Rightarrow> v) of
                    Num x \<Rightarrow> if x = 0 then 1 else max 1 x | _ \<Rightarrow> 1))
            (Num (case parseInt (case body_per_page body of None \<Rightarrow> ''10'' | Some v \<Rightarrow> v) of
                    Num x \<Rightarrow> if x = 0 then 10 else min 100 (max 1 x) | _ \<Rightarrow> 10)))"
  using assms by (simp add: ask_handler_def Let_def ask_page_value ask_per_page_value)

lemma parseInt_1: "parseInt ''1'' = Num 1"
  by (simp add: parseInt_def strip_sign_def is_space_def is_digit_def decimal_def digit_value_def)

lemma parseInt_10: "parseInt ''10'' = Num 10"
  by (simp add: parseInt_def strip_sign_def is_space_def is_digit_def decimal_def digit_value_def)

lemma parseFloat_1: "parseFloat ''1'' = Num 1"
  by (simp add: parseFloat_def strip_sign_def is_space_def is_digit_def decimal_def
      digit_value_def exponent_def)

lemma parseFloat_10: "parseFloat ''10'' = Num 10"
  by (simp add: parseFloat_def strip_sign_def is_space_def is_digit_def decimal_def
      digit_value_def exponent_def)

lemma meta_executeFilteredQuery:
  "meta_of (executeFilteredQuery count f pg pp) =
     (let n = count (conditions (ask_conditions f)) (queryParams (ask_conditions f));
          tp = Math_ceil (js_div (Num (of_nat n)) pp)
      in \<lparr>total_count = n, page = N pg, per_page = N pp, total_pages = tp,
           has_next_page = js_less pg tp, has_prev_page = js_less (Num 1) pg\<rparr>)"
  by (simp add: executeFilteredQuery_def Let_def)

lemma validateInteger_Inr:
  assumes "validateInteger (Some s) name (Some lo) hi = Inr v" and "s \<noteq> []"
  shows "\<exists>x. parseInt s = Num x \<and> v = Some (Num x) \<and> lo \<le> x \<and> (\<forall>h. hi = Some h \<longrightarrow> x \<le> h)"
  using assms parseInt_cases[of s]
  by (auto simp: validateInteger_def Let_def isNaN_def split: if_splits)

lemma validateInteger_absent_1:
  "validateInteger (Some ''1'') name (Some 1) None = Inr (Some (Num 1))"
  by (simp add: validateInteger_def Let_def isNaN_def parseInt_1 parseFloat_1 Number_isInteger_def)

lemma validateInteger_absent_10:
  "validateInteger (Some ''10'') name (Some 1) (Some 100) = Inr (Some (Num 10))"
  by (simp add: validateInteger_def Let_def isNaN_def parseInt_10 parseFloat_10 Number_isInteger_def)

lemma and_then_Inr: "and_then r k = Inr y \<longleftrightarrow> (\<exists>v. r = Inr v \<and> k v = Inr y)"
  by (cases r) (simp_all add: and_then_def)

lemma validate_params_Inr:
  assumes "validate_params query = Inr vp"
  shows "validateInteger (query ''min_credits'') ''min_credits'' (Some 1) None
           = Inr (v_min_credits vp)"
    and "validateInteger (query ''max_credits'') ''max_credits'' (Some 1) None
           = Inr (v_max_credits vp)"
    and "validateInteger (case query ''page'' of None \<Rightarrow> Some ''1'' | Some v \<Rightarrow> Some v)
           ''page'' (Some 1) None = Inr (v_page vp)"
    and "validateInteger (case query ''per_page'' of None \<Rightarrow> Some ''10'' | Some v \<Rightarrow> Some v)
           ''per_page'' (Some 1) (Some 100) = Inr (v_per_page vp)"
  using assms unfolding validate_params_def Let_def and_then_Inr by auto

lemma meta_courses_query:
  "meta_of (courses_query count query vp) =
     (let n = count (conditions (courses_conditions query vp))
                (queryParams (courses_conditions query vp));
          tp = Math_ceil (js_div (Num (of_nat n)) (ToNumber (v_per_page vp)))
      in \<lparr>total_count = n, page = param_of (v_page vp), per_page = param_of (v_per_page vp),
           total_pages = tp,
           has_next_page = js_less (ToNumber (v_page vp)) tp,
           has_prev_page = js_less (Num 1) (ToNumber (v_page vp))\<rparr>)"
  by (simp add: courses_query_def Let_def)

lemma ceiling_pages:
  fixes pp :: rat
  assumes "1 \<le> pp"
  shows "(of_int \<lceil>of_nat n / pp\<rceil> - 1) * pp < of_nat n"
    and "of_nat n \<le> of_int \<lceil>of_nat n / pp\<rceil> * pp"
    and "n = 0 \<Longrightarrow> \<lceil>of_nat n / pp\<rceil> = 0"
proof -
  have pos: "0 < pp" using assms by simp
  have "of_int \<lceil>of_nat n / pp\<rceil> - 1 < of_nat n / pp" by linarith
  then have "(of_int \<lceil>of_nat n / pp\<rceil> - 1) * pp < (of_nat n / pp) * pp"
    using pos by (rule mult_strict_right_mono)
  then show "(of_int \<lceil>of_nat n / pp\<rceil> - 1) * pp < of_nat n"
    using pos by simp
  have "of_nat n = (of_nat n / pp) * pp" using pos by simp
  also have "\<dots> \<le> of_int \<lceil>of_nat n / pp\<rceil> * pp"
    using pos by (intro mult_right_mono) auto
  finally show "of_nat n \<le> of_int \<lceil>of_nat n / pp\<rceil> * pp" .
  show "n = 0 \<Longrightarrow> \<lceil>of_nat n / pp\<rceil> = 0" by simp
qed






lemma reversed_credits_handled: "\<not> isl (courses_handler no_rows reversed_credits)"
  by code_simp


subsection \<open>Claims on the search routes\<close>

text \<open>
  C1: in the main query of either search route, the conditions mention exactly the
  placeholders \<open>$1\<close> to \<open>$n\<close>, there are \<open>n + 2\<close> parameters, and the last two are the
  limit and the offset, bound to \<open>$(n+1)\<close> and \<open>$(n+2)\<close>. A populated \<open>q\<close> gives the first
  condition, which has \<open>$1\<close> on both sides of its \<open>OR\<close>, and the first parameter; no other
  condition mentions \<open>$1\<close>.
\<close>

theorem compiled_parameters_match_placeholders:
  "(let m = main_query (executeFilteredQuery count f pg perPage) in
      Query_Spec_invariant m
      \<and> drop (length (params m) - 2) (params m)
          = [N perPage, N (js_mul (js_sub pg (Num 1)) perPage)]
      \<and> (truthy_str (q f) \<longrightarrow>
            where_conditions m ! 0
              = [T ''(course_name ILIKE '', P 1, T '' OR department ILIKE '', P 1, T '')'']
            \<and> params m ! 0 = S (''%'' @ the (q f) @ ''%'')
            \<and> (\<forall>i. 0 < i \<and> i < length (where_conditions m)
                    \<longrightarrow> 1 \<notin> set (placeholders [where_conditions m ! i]))))
   \<and> (\<forall>r. courses_handler count query = Inr r \<longrightarrow>
        (let m = main_query r in
           Query_Spec_invariant m
           \<and> (\<exists>vp. validate_params query = Inr vp
                 \<and> drop (length (params m) - 2) (params m)
                     = [param_of (v_per_page vp),
                        N (js_mul (js_sub (ToNumber (v_page vp)) (Num 1)) (ToNumber (v_per_page vp)))])
           \<and> (truthy_str (query ''q'') \<and> trim (the (query ''q'')) \<noteq> [] \<longrightarrow>
                 where_conditions m ! 0
                   = [T ''(course_name ILIKE '', P 1, T '' OR department ILIKE '', P 1, T '')'']
                 \<and> params m ! 0 = S (''%'' @ trim (the (query ''q'')) @ ''%'')
                 \<and> (\<forall>i. 0 < i \<and> i < length (where_conditions m)
                         \<longrightarrow> 1 \<notin> set (placeholders [where_conditions m ! i])))))"
proof (intro conjI allI impI)
  define b where "b = ask_conditions f"
  have ok: "builder_ok b" unfolding b_def by (rule builder_ok_ask)
  have inv: "Query_Spec_invariant (main_query (executeFilteredQuery count f pg perPage))"
    using builder_ok_invariant[OF ok] by (simp add: executeFilteredQuery_def Let_def b_def)
  have first: "truthy_str (q f) \<Longrightarrow> search_first (S (''%'' @ the (q f) @ ''%'')) b"
    unfolding b_def by (rule search_first_ask)
  show "let m = main_query (executeFilteredQuery count f pg perPage) in
      Query_Spec_invariant m
      \<and> drop (length (params m) - 2) (params m)
          = [N perPage, N (js_mul (js_sub pg (Num 1)) perPage)]
      \<and> (truthy_str (q f) \<longrightarrow>
            where_conditions m ! 0
              = [T ''(course_name ILIKE '', P 1, T '' OR department ILIKE '', P 1, T '')'']
            \<and> params m ! 0 = S (''%'' @ the (q f) @ ''%'')
            \<and> (\<forall>i. 0 < i \<and> i < length (where_conditions m)
                    \<longrightarrow> 1 \<notin> set (placeholders [where_conditions m ! i])))"
    using inv first builder_ok_others[OF ok]
    by (auto simp: executeFilteredQuery_def Let_def b_def[symmetric] search_first_def nth_append
        like_fragment_def)
next
  fix r assume "courses_handler count query = Inr r"
  then obtain vp where vp: "validate_params query = Inr vp"
    and r: "r = courses_query count query vp"
    by (auto simp: courses_handler_Inr)
  define b where "b = courses_conditions query vp"
  have ok: "builder_ok b" unfolding b_def by (rule builder_ok_courses)
  have inv: "Query_Spec_invariant (main_query r)"
    using builder_ok_invariant[OF ok] by (simp add: r courses_query_def Let_def b_def)
  have first: "truthy_str (query ''q'') \<Longrightarrow> trim (the (query ''q'')) \<noteq> []
                 \<Longrightarrow> search_first (S (''%'' @ trim (the (query ''q'')) @ ''%'')) b"
    unfolding b_def by (rule search_first_courses)
  show "let m = main_query r in
           Query_Spec_invariant m
           \<and> (\<exists>vp. validate_params query = Inr vp
                 \<and> drop (length (params m) - 2) (params m)
                     = [param_of (v_per_page vp),
                        N (js_mul (js_sub (ToNumber (v_page vp)) (Num 1)) (ToNumber (v_per_page vp)))])
           \<and> (truthy_str (query ''q'') \<and> trim (the (query ''q'')) \<noteq> [] \<longrightarrow>
                 where_conditions m ! 0
                   = [T ''(course_name ILIKE '', P 1, T '' OR department ILIKE '', P 1, T '')'']
                 \<and> params m ! 0 = S (''%'' @ trim (the (query ''q'')) @ ''%'')
                 \<and> (\<forall>i. 0 < i \<and> i < length (where_conditions m)
                         \<longrightarrow> 1 \<notin> set (placeholders [where_conditions m ! i])))"
    using inv first builder_ok_others[OF ok] vp
    by (auto simp: r courses_query_def Let_def b_def[symmetric] search_first_def nth_append
        like_fragment_def)
qed

theorem compiled_parameters_match_placeholders_witness:
  "Query_Spec_invariant (main_query (executeFilteredQuery no_rows law_filters (Num 1) (Num 10)))
   \<and> where_conditions (main_query (executeFilteredQuery no_rows law_filters (Num 1) (Num 10))) ! 0
       = [T ''(course_name ILIKE '', P 1, T '' OR department ILIKE '', P 1, T '')'']
   \<and> params (main_query (executeFilteredQuery no_rows law_filters (Num 1) (Num 10)))
       = [S ''%law%'', N (Num 100), N (Num 10), N (Num 0)]
   \<and> (\<exists>r. courses_handler no_rows law_query = Inr r
         \<and> Query_Spec_invariant (main_query r)
         \<and> where_conditions (main_query r) ! 0
             = [T ''(course_name ILIKE '', P 1, T '' OR department ILIKE '', P 1, T '')'']
         \<and> params (main_query r) ! 0 = S ''%law%'')"
proof -
  define m where "m = main_query (executeFilteredQuery no_rows law_filters (Num 1) (Num 10))"
  note fact = compiled_parameters_match_placeholders[where count = no_rows and f = law_filters
      and pg = "Num 1" and perPage = "Num 10" and query = law_query]
  have t: "truthy_str (q law_filters)"
    by (simp add: law_filters_def truthy_str_def)
  note f1 = fact[THEN conjunct1, unfolded Let_def, folded m_def]
  have a1: "Query_Spec_invariant m" using f1 by (rule conjunct1)
  have a2: "where_conditions m ! 0
       = [T ''(course_name ILIKE '', P 1, T '' OR department ILIKE '', P 1, T '')'']"
    using f1[THEN conjunct2, THEN conjunct2, THEN mp, OF t] by (rule conjunct1)
  have a3: "params m = [S ''%law%'', N (Num 100), N (Num 10), N (Num 0)]"
    unfolding m_def by code_simp
  obtain r where r: "courses_handler no_rows law_query = Inr r"
  proof (cases "courses_handler no_rows law_query")
    case (Inl e)
    moreover have "\<not> isl (courses_handler no_rows law_query)" by code_simp
    ultimately show ?thesis by simp
  next
    case (Inr r) then show ?thesis by (rule that)
  qed
  have tq: "truthy_str (law_query ''q'') \<and> trim (the (law_query ''q'')) \<noteq> []"
    by (simp add: law_query_def truthy_str_def trim_def is_space_def)
  have tr: "trim (the (law_query ''q'')) = ''law''"
    by (simp add: law_query_def trim_def is_space_def)
  note f2 = fact[THEN conjunct2, THEN spec, THEN mp, OF r, unfolded Let_def]
  have b1: "Query_Spec_invariant (main_query r)" using f2 by (rule conjunct1)
  note f3 = f2[THEN conjunct2, THEN conjunct2, THEN mp, OF tq]
  have b2: "where_conditions (main_query r) ! 0
             = [T ''(course_name ILIKE '', P 1, T '' OR department ILIKE '', P 1, T '')'']"
    using f3 by (rule conjunct1)
  have b3: "params (main_query r) ! 0 = S ''%law%''"
    using f3[THEN conjunct2, THEN conjunct1] unfolding tr by simp
  show ?thesis
    unfolding m_def[symmetric]
  proof (intro conjI exI[of _ r])
    show "courses_handler no_rows law_query = Inr r" by (rule r)
  qed (rule a1 a2 a3 b1 b2 b3)+
qed

text \<open>
  C4, as stated: on either search route a page below 1 is floored to 1 and never rejected.
  On the explicit-parameter route a page of 0 is rejected.
\<close>

theorem page_below_one_is_rejected_counterexample:
  "courses_handler no_rows page_zero = Inl (Invalid ''page'' (must_be_ge 1))"
  by code_simp

text \<open>
  C4, amended. On the free-text route the request never fails for its pagination: an absent
  page is 1 and a supplied one is read by \<open>parseInt\<close>, where an unreadable value, zero
  and a value below 1 give 1; an absent \<open>per_page\<close> is 10 and a supplied one is read by
  \<open>parseInt\<close>, where an unreadable value and zero give 10 and any other value is clamped
  into 1 to 100. On the explicit-parameter route an absent page is 1 and an absent
  \<open>per_page\<close> is 10; a supplied, non-empty value is taken unchanged when the request
  succeeds, and then it is at least 1, and \<open>per_page\<close> at most 100; a page below 1 and a
  \<open>per_page\<close> outside 1 to 100 fail the request.
\<close>

theorem pagination_parameters_by_route:
  "(truthy_str (question body) \<longrightarrow>
      (\<exists>r p pp. ask_handler count body = Inr r
         \<and> page (meta_of r) = N (Num p) \<and> per_page (meta_of r) = N (Num pp)
         \<and> p = (case parseInt (case body_page body of None \<Rightarrow> ''1'' | Some v \<Rightarrow> v) of
                  Num x \<Rightarrow> if x = 0 then 1 else max 1 x | _ \<Rightarrow> 1)
         \<and> pp = (case parseInt (case body_per_page body of None \<Rightarrow> ''10'' | Some v \<Rightarrow> v) of
                   Num x \<Rightarrow> if x = 0 then 10 else min 100 (max 1 x) | _ \<Rightarrow> 10)
         \<and> 1 \<le> p \<and> 1 \<le> pp \<and> pp \<le> 100
         \<and> (body_page body = None \<longrightarrow> p = 1) \<and> (body_per_page body = None \<longrightarrow> pp = 10)))
   \<and> (\<forall>r. courses_handler count query = Inr r \<longrightarrow>
         (query ''page'' = None \<longrightarrow> page (meta_of r) = N (Num 1))
         \<and> (query ''per_page'' = None \<longrightarrow> per_page (meta_of r) = N (Num 10))
         \<and> (\<forall>s. query ''page'' = Some s \<and> s \<noteq> [] \<longrightarrow>
               (\<exists>x. parseInt s = Num x \<and> 1 \<le> x \<and> page (meta_of r) = N (Num x)))
         \<and> (\<forall>s. query ''per_page'' = Some s \<and> s \<noteq> [] \<longrightarrow>
               (\<exists>x. parseInt s = Num x \<and> 1 \<le> x \<and> x \<le> 100
                    \<and> per_page (meta_of r) = N (Num x))))
   \<and> (\<forall>s x. query ''page'' = Some s \<and> parseInt s = Num x \<and> x < 1 \<longrightarrow>
         (\<exists>e. courses_handler count query = Inl e))
   \<and> (\<forall>s x. query ''per_page'' = Some s \<and> parseInt s = Num x \<and> (x < 1 \<or> 100 < x) \<longrightarrow>
         (\<exists>e. courses_handler count query = Inl e))"
proof -
  have ask: "truthy_str (question body) \<longrightarrow>
      (\<exists>r p pp. ask_handler count body = Inr r
         \<and> page (meta_of r) = N (Num p) \<and> per_page (meta_of r) = N (Num pp)
         \<and> p = (case parseInt (case body_page body of None \<Rightarrow> ''1'' | Some v \<Rightarrow> v) of
                  Num x \<Rightarrow> if x = 0 then 1 else max 1 x | _ \<Rightarrow> 1)
         \<and> pp = (case parseInt (case body_per_page body of None \<Rightarrow> ''10'' | Some v \<Rightarrow> v) of
                   Num x \<Rightarrow> if x = 0 then 10 else min 100 (max 1 x) | _ \<Rightarrow> 10)
         \<and> 1 \<le> p \<and> 1 \<le> pp \<and> pp \<le> 100
         \<and> (body_page body = None \<longrightarrow> p = 1) \<and> (body_per_page body = None \<longrightarrow> pp = 10))"
  proof
    assume t: "truthy_str (question body)"
    define p where "p = (case parseInt (case body_page body of None \<Rightarrow> ''1'' | Some v \<Rightarrow> v) of
                  Num x \<Rightarrow> if x = 0 then 1 else max 1 x | _ \<Rightarrow> (1::rat))"
    define pp where "pp = (case parseInt (case body_per_page body of None \<Rightarrow> ''10'' | Some v \<Rightarrow> v)
                   of Num x \<Rightarrow> if x = 0 then 10 else min 100 (max 1 x) | _ \<Rightarrow> (10::rat))"
    have 1: "1 \<le> p" unfolding p_def by (simp split: jsnum.splits)
    have 2: "1 \<le> pp \<and> pp \<le> 100" unfolding pp_def by (simp split: jsnum.splits)
    have 3: "body_page body = None \<longrightarrow> p = 1" unfolding p_def by (simp add: parseInt_1)
    have 4: "body_per_page body = None \<longrightarrow> pp = 10" unfolding pp_def by (simp add: parseInt_10)
    have 5: "ask_handler count body
               = Inr (executeFilteredQuery count
                        (parseNaturalLanguageQuery (the (question body))) (Num p) (Num pp))"
      unfolding p_def pp_def by (rule ask_handler_Inr[OF t])
    show "\<exists>r p pp. ask_handler count body = Inr r
         \<and> page (meta_of r) = N (Num p) \<and> per_page (meta_of r) = N (Num pp)
         \<and> p = (case parseInt (case body_page body of None \<Rightarrow> ''1'' | Some v \<Rightarrow> v) of
                  Num x \<Rightarrow> if x = 0 then 1 else max 1 x | _ \<Rightarrow> 1)
         \<and> pp = (case parseInt (case body_per_page body of None \<Rightarrow> ''10'' | Some v \<Rightarrow> v) of
                   Num x \<Rightarrow> if x = 0 then 10 else min 100 (max 1 x) | _ \<Rightarrow> 10)
         \<and> 1 \<le> p \<and> 1 \<le> pp \<and> pp \<le> 100
         \<and> (body_page body = None \<longrightarrow> p = 1) \<and> (body_per_page body = None \<longrightarrow> pp = 10)"
      apply (rule exI[of _ "executeFilteredQuery count
                        (parseNaturalLanguageQuery (the (question body))) (Num p) (Num pp)"])
      apply (rule exI[of _ p], rule exI[of _ pp])
      using 1 2 3 4 5 by (simp add: meta_executeFilteredQuery Let_def p_def[symmetric] pp_def[symmetric])
  qed
  have ok: "\<And>r. courses_handler count query = Inr r \<Longrightarrow>
         (query ''page'' = None \<longrightarrow> page (meta_of r) = N (Num 1))
         \<and> (query ''per_page'' = None \<longrightarrow> per_page (meta_of r) = N (Num 10))
         \<and> (\<forall>s. query ''page'' = Some s \<and> s \<noteq> [] \<longrightarrow>
               (\<exists>x. parseInt s = Num x \<and> 1 \<le> x \<and> page (meta_of r) = N (Num x)))
         \<and> (\<forall>s. query ''per_page'' = Some s \<and> s \<noteq> [] \<longrightarrow>
               (\<exists>x. parseInt s = Num x \<and> 1 \<le> x \<and> x \<le> 100
                    \<and> per_page (meta_of r) = N (Num x)))"
  proof -
    fix r assume "courses_handler count query = Inr r"
    then obtain vp where vp: "validate_params query = Inr vp"
      and r: "r = courses_query count query vp"
      by (auto simp: courses_handler_Inr)
    note pg = validate_params_Inr(3)[OF vp] and pp = validate_params_Inr(4)[OF vp]
    have m: "page (meta_of r) = param_of (v_page vp)"
      "per_page (meta_of r) = param_of (v_per_page vp)"
      by (simp_all add: r meta_courses_query Let_def)
    have a: "query ''page'' = None \<longrightarrow> page (meta_of r) = N (Num 1)"
    proof
      assume "query ''page'' = None"
      with pg have "Inr (Some (Num 1)) = (Inr (v_page vp) :: courses_error + jsnum option)"
        by (simp add: validateInteger_absent_1)
      then have "v_page vp = Some (Num 1)" by simp
      then show "page (meta_of r) = N (Num 1)" by (simp add: m param_of_def)
    qed
    have b: "query ''per_page'' = None \<longrightarrow> per_page (meta_of r) = N (Num 10)"
    proof
      assume "query ''per_page'' = None"
      with pp have "Inr (Some (Num 10)) = (Inr (v_per_page vp) :: courses_error + jsnum option)"
        by (simp add: validateInteger_absent_10)
      then have "v_per_page vp = Some (Num 10)" by simp
      then show "per_page (meta_of r) = N (Num 10)" by (simp add: m param_of_def)
    qed
    have c: "\<forall>s. query ''page'' = Some s \<and> s \<noteq> [] \<longrightarrow>
               (\<exists>x. parseInt s = Num x \<and> 1 \<le> x \<and> page (meta_of r) = N (Num x))"
    proof (intro allI impI)
      fix s assume s: "query ''page'' = Some s \<and> s \<noteq> []"
      with pg have "validateInteger (Some s) ''page'' (Some 1) None = Inr (v_page vp)" by simp
      from validateInteger_Inr[OF this] s
      show "\<exists>x. parseInt s = Num x \<and> 1 \<le> x \<and> page (meta_of r) = N (Num x)"
        by (auto simp: m param_of_def)
    qed
    have d: "\<forall>s. query ''per_page'' = Some s \<and> s \<noteq> [] \<longrightarrow>
               (\<exists>x. parseInt s = Num x \<and> 1 \<le> x \<and> x \<le> 100
                    \<and> per_page (meta_of r) = N (Num x))"
    proof (intro allI impI)
      fix s assume s: "query ''per_page'' = Some s \<and> s \<noteq> []"
      with pp have "validateInteger (Some s) ''per_page'' (Some 1) (Some 100)
                      = Inr (v_per_page vp)" by simp
      from validateInteger_Inr[OF this] s
      show "\<exists>x. parseInt s = Num x \<and> 1 \<le> x \<and> x \<le> 100 \<and> per_page (meta_of r) = N (Num x)"
        by (auto simp: m param_of_def)
    qed
    from a b c d show "(query ''page'' = None \<longrightarrow> page (meta_of r) = N (Num 1))
         \<and> (query ''per_page'' = None \<longrightarrow> per_page (meta_of r) = N (Num 10))
         \<and> (\<forall>s. query ''page'' = Some s \<and> s \<noteq> [] \<longrightarrow>
               (\<exists>x. parseInt s = Num x \<and> 1 \<le> x \<and> page (meta_of r) = N (Num x)))
         \<and> (\<forall>s. query ''per_page'' = Some s \<and> s \<noteq> [] \<longrightarrow>
               (\<exists>x. parseInt s = Num x \<and> 1 \<le> x \<and> x \<le> 100
                    \<and> per_page (meta_of r) = N (Num x)))"
      by blast
  qed
  have rej1: "\<forall>s x. query ''page'' = Some s \<and> parseInt s = Num x \<and> x < 1 \<longrightarrow>
         (\<exists>e. courses_handler count query = Inl e)"
  proof (intro allI impI)
    fix s x assume h: "query ''page'' = Some s \<and> parseInt s = Num x \<and> x < 1"
    then have ne: "s \<noteq> []" using parseInt_empty by auto
    show "\<exists>e. courses_handler count query = Inl e"
    proof (cases "courses_handler count query")
      case (Inl e) then show ?thesis by blast
    next
      case (Inr r)
      from ok[OF Inr] h ne have False by auto
      then show ?thesis ..
    qed
  qed
  have rej2: "\<forall>s x. query ''per_page'' = Some s \<and> parseInt s = Num x \<and> (x < 1 \<or> 100 < x) \<longrightarrow>
         (\<exists>e. courses_handler count query = Inl e)"
  proof (intro allI impI)
    fix s x assume h: "query ''per_page'' = Some s \<and> parseInt s = Num x \<and> (x < 1 \<or> 100 < x)"
    then have ne: "s \<noteq> []" using parseInt_empty by auto
    show "\<exists>e. courses_handler count query = Inl e"
    proof (cases "courses_handler count query")
      case (Inl e) then show ?thesis by blast
    next
      case (Inr r)
      from ok[OF Inr] h ne have False by auto
      then show ?thesis ..
    qed
  qed
  from ask ok rej1 rej2 show ?thesis by blast
qed

theorem pagination_parameters_by_route_witness:
  "(\<exists>r. ask_handler no_rows
          \<lparr>question = Some ''law'', body_page = Some ''0'', body_per_page = Some ''500''\<rparr> = Inr r
        \<and> page (meta_of r) = N (Num 1) \<and> per_page (meta_of r) = N (Num 100))
   \<and> (\<exists>e. courses_handler no_rows page_zero = Inl e)
   \<and> (\<exists>r. courses_handler no_rows reversed_credits = Inr r
        \<and> page (meta_of r) = N (Num 1) \<and> per_page (meta_of r) = N (Num 10))"
proof -
  define body where
    "body = \<lparr>question = Some ''law'', body_page = Some ''0'', body_per_page = Some ''500''\<rparr>"
  have p0: "parseInt ''0'' = Num 0" and p500: "parseInt ''500'' = Num 500"
    by code_simp+
  have t: "truthy_str (question body)" by (simp add: body_def truthy_str_def)
  note fact = pagination_parameters_by_route[of body no_rows page_zero]
  from fact t obtain r p pp where r: "ask_handler no_rows body = Inr r"
    and "page (meta_of r) = N (Num p)" and "per_page (meta_of r) = N (Num pp)"
    and "p = (case parseInt (case body_page body of None \<Rightarrow> ''1'' | Some v \<Rightarrow> v) of
                  Num x \<Rightarrow> if x = 0 then 1 else max 1 x | _ \<Rightarrow> 1)"
    and "pp = (case parseInt (case body_per_page body of None \<Rightarrow> ''10'' | Some v \<Rightarrow> v) of
                   Num x \<Rightarrow> if x = 0 then 10 else min 100 (max 1 x) | _ \<Rightarrow> 10)"
    by blast
  then have a: "page (meta_of r) = N (Num 1) \<and> per_page (meta_of r) = N (Num 100)"
    by (simp add: body_def p0 p500)
  have "page_zero ''page'' = Some ''0'' \<and> parseInt ''0'' = Num 0 \<and> (0::rat) < 1"
    by (simp add: page_zero_def p0)
  with fact have b: "\<exists>e. courses_handler no_rows page_zero = Inl e" by blast
  obtain r' where r': "courses_handler no_rows reversed_credits = Inr r'"
    using reversed_credits_handled by (cases "courses_handler no_rows reversed_credits") auto
  have "reversed_credits ''page'' = None" and "reversed_credits ''per_page'' = None"
    by (simp_all add: reversed_credits_def)
  with pagination_parameters_by_route[of body no_rows reversed_credits] r'
  have c: "page (meta_of r') = N (Num 1) \<and> per_page (meta_of r') = N (Num 10)" by blast
  show ?thesis
    using r a b r' c unfolding body_def by blast
qed




text \<open>
  C6: for a page and a page size of at least 1, the meta of both search routes has
  \<open>total_pages\<close> the ceiling of \<open>total_count / per_page\<close>, which is the least \<open>k\<close> with
  \<open>total_count \<le> k * per_page\<close> and is 0 for no row; \<open>has_next_page\<close> holds exactly when the
  page is below \<open>total_pages\<close>, \<open>has_prev_page\<close> exactly when it is above 1; and the offset
  bound to the query is \<open>(page - 1) * per_page\<close>.
\<close>

theorem page_meta_of_both_routes:
  assumes "1 \<le> p" and "1 \<le> pp"
  shows "(let r = executeFilteredQuery count f (Num p) (Num pp);
              n = total_count (meta_of r);
              k = \<lceil>of_nat n / pp\<rceil>
          in meta_of r = \<lparr>total_count = n, page = N (Num p), per_page = N (Num pp),
                          total_pages = Num (of_int k),
                          has_next_page = (p < of_int k), has_prev_page = (1 < p)\<rparr>
             \<and> (of_int k - 1) * pp < of_nat n \<and> of_nat n \<le> of_int k * pp
             \<and> (n = 0 \<longrightarrow> k = 0)
             \<and> last (params (main_query r)) = N (Num ((p - 1) * pp)))
       \<and> (v_page vp = Some (Num p) \<and> v_per_page vp = Some (Num pp) \<longrightarrow>
           (let r = courses_query count query vp;
                n = total_count (meta_of r);
                k = \<lceil>of_nat n / pp\<rceil>
            in meta_of r = \<lparr>total_count = n, page = N (Num p), per_page = N (Num pp),
                            total_pages = Num (of_int k),
                            has_next_page = (p < of_int k), has_prev_page = (1 < p)\<rparr>
               \<and> (of_int k - 1) * pp < of_nat n \<and> of_nat n \<le> of_int k * pp
               \<and> (n = 0 \<longrightarrow> k = 0)
               \<and> last (params (main_query r)) = N (Num ((p - 1) * pp))))"
proof -
  have nz: "pp \<noteq> 0" using assms(2) by auto
  have a: "meta_of (executeFilteredQuery count f (Num p) (Num pp)) =
      (let n = count (conditions (ask_conditions f)) (queryParams (ask_conditions f));
           k = \<lceil>of_nat n / pp\<rceil>
       in \<lparr>total_count = n, page = N (Num p), per_page = N (Num pp),
            total_pages = Num (of_int k),
            has_next_page = (p < of_int k), has_prev_page = (1 < p)\<rparr>)"
    using nz by (simp add: meta_executeFilteredQuery Let_def Math_ceil_def)
  have b: "last (params (main_query (executeFilteredQuery count f (Num p) (Num pp))))
             = N (Num ((p - 1) * pp))"
    by (simp add: executeFilteredQuery_def Let_def js_sub_def js_neg_def)
  have c: "v_page vp = Some (Num p) \<Longrightarrow> v_per_page vp = Some (Num pp) \<Longrightarrow>
      meta_of (courses_query count query vp) =
      (let n = count (conditions (courses_conditions query vp))
                 (queryParams (courses_conditions query vp));
           k = \<lceil>of_nat n / pp\<rceil>
       in \<lparr>total_count = n, page = N (Num p), per_page = N (Num pp),
            total_pages = Num (of_int k),
            has_next_page = (p < of_int k), has_prev_page = (1 < p)\<rparr>)"
    using nz by (simp add: meta_courses_query Let_def Math_ceil_def ToNumber_def param_of_def)
  have d: "v_page vp = Some (Num p) \<Longrightarrow> v_per_page vp = Some (Num pp) \<Longrightarrow>
      last (params (main_query (courses_query count query vp))) = N (Num ((p - 1) * pp))"
    by (simp add: courses_query_def Let_def js_sub_def js_neg_def ToNumber_def)
  show ?thesis
    using ceiling_pages[OF assms(2)] b d
    by (simp add: a c Let_def)
qed

theorem page_meta_of_both_routes_witness:
  "meta_of (executeFilteredQuery (\<lambda>cs ps. 25) empty_filters (Num 2) (Num 10))
     = \<lparr>total_count = 25, page = N (Num 2), per_page = N (Num 10), total_pages = Num 3,
        has_next_page = True, has_prev_page = True\<rparr>
   \<and> last (params (main_query (executeFilteredQuery (\<lambda>cs ps. 25) empty_filters (Num 2) (Num 10))))
       = N (Num 10)
   \<and> (\<exists>vp. validate_params [''page'' \<mapsto> ''3'', ''per_page'' \<mapsto> ''10''] = Inr vp
        \<and> meta_of (courses_query (\<lambda>cs ps. 25) [''page'' \<mapsto> ''3'', ''per_page'' \<mapsto> ''10''] vp)
            = \<lparr>total_count = 25, page = N (Num 3), per_page = N (Num 10), total_pages = Num 3,
               has_next_page = False, has_prev_page = True\<rparr>)"
proof -
  define vp where "vp =
    \<lparr>v_min_fee = None, v_max_fee = None, v_min_rating = None, v_max_rating = None,
     v_min_credits = None, v_max_credits = None,
     v_min_duration_weeks = None, v_max_duration_weeks = None, v_year_offered = None,
     v_page = Some (Num 3), v_per_page = Some (Num 10)\<rparr>"
  define query :: "string \<rightharpoonup> string" where "query = [''page'' \<mapsto> ''3'', ''per_page'' \<mapsto> ''10'']"
  define r1 where "r1 = executeFilteredQuery (\<lambda>cs ps. 25) empty_filters (Num 2) (Num 10)"
  define r2 where "r2 = courses_query (\<lambda>cs ps. 25) query vp"
  have v: "validate_params query = Inr vp"
    unfolding vp_def query_def by code_simp
  have c: "\<lceil>rat_of_nat 25 / 10\<rceil> = 3" by code_simp
  have n1: "total_count (meta_of r1) = 25"
    by (simp add: r1_def meta_executeFilteredQuery Let_def)
  have n2: "total_count (meta_of r2) = 25"
    by (simp add: r2_def meta_courses_query Let_def)
  have h2: "(1::rat) \<le> 2" and h3: "(1::rat) \<le> 3" and h10: "(1::rat) \<le> 10" by simp_all
  have pages: "v_page vp = Some (Num 3) \<and> v_per_page vp = Some (Num 10)"
    by (simp add: vp_def)
  note fact1 = page_meta_of_both_routes[OF h2 h10, where count = "\<lambda>cs ps. 25"
      and f = empty_filters and vp = vp and query = query]
  note fact2 = page_meta_of_both_routes[OF h3 h10, where count = "\<lambda>cs ps. 25"
      and f = empty_filters and vp = vp and query = query]
  note f1 = fact1[unfolded Let_def, folded r1_def, THEN conjunct1]
  have a: "meta_of r1 = \<lparr>total_count = 25, page = N (Num 2), per_page = N (Num 10),
        total_pages = Num 3, has_next_page = True, has_prev_page = True\<rparr>
      \<and> last (params (main_query r1)) = N (Num 10)"
    using f1 unfolding n1 c by simp
  note f2 = fact2[unfolded Let_def, folded r2_def, THEN conjunct2, THEN mp, OF pages]
  have b: "meta_of r2 = \<lparr>total_count = 25, page = N (Num 3), per_page = N (Num 10),
        total_pages = Num 3, has_next_page = False, has_prev_page = True\<rparr>"
    using f2 unfolding n2 c by simp
  show ?thesis
    unfolding r1_def[symmetric] query_def[symmetric]
  proof (intro conjI exI[of _ vp])
    show "validate_params query = Inr vp" by (rule v)
    show "meta_of (courses_query (\<lambda>cs ps. 25) query vp) = \<lparr>total_count = 25, page = N (Num 3),
        per_page = N (Num 10), total_pages = Num 3, has_next_page = False,
        has_prev_page = True\<rparr>"
      using b by (simp only: r2_def)
  qed (simp_all only: a)
qed


subsection \<open>Lemmas on the parser of the free-text route\<close>

lemma rx_run_rests: "map fst (rx_run r s c) = rx_rests r s"
proof (induction r s c rule: rx_run.induct)
  case (6 a b s c)
  have "map fst (rx_run (Seq a b) s c)
          = concat (map (\<lambda>p. map fst (rx_run b (fst p) (snd p))) (rx_run a s c))"
    by (simp add: map_concat comp_def)
  also have "\<dots> = concat (map (\<lambda>p. rx_rests b (fst p)) (rx_run a s c))"
    using 6(2) by (intro arg_cong[where f = concat] map_cong) auto
  also have "\<dots> = concat (map (rx_rests b) (map fst (rx_run a s c)))"
    by (simp add: comp_def)
  finally show ?case by (simp add: 6(1))
next
  case (8 a s c)
  have "map fst (rx_run (Star a) s c)
          = concat (map (\<lambda>p. map fst (if length (fst p) < length s
                                        then rx_run (Star a) (fst p) (snd p) else []))
                        (rx_run a s c)) @ [s]"
    by (subst rx_run.simps(8)) (simp add: map_concat comp_def)
  also have "concat (map (\<lambda>p. map fst (if length (fst p) < length s
                                        then rx_run (Star a) (fst p) (snd p) else []))
                        (rx_run a s c))
           = concat (map (\<lambda>p. if length (fst p) < length s
                                then rx_rests (Star a) (fst p) else []) (rx_run a s c))"
    using 8(2) by (intro arg_cong[where f = concat] map_cong) auto
  also have "\<dots> = concat (map (\<lambda>t. if length t < length s then rx_rests (Star a) t else [])
                            (map fst (rx_run a s c)))"
    by (simp add: comp_def)
  finally show ?case by (simp add: 8(1) rx_rests.simps(8)[of a s])
qed (auto split: list.splits simp: comp_def)

lemma rx_rests_suffix: "t \<in> set (rx_rests r s) \<Longrightarrow> suffix t s"
proof (induction r s arbitrary: t rule: rx_rests.induct)
  case (1 s)
  then show ?case by simp
next
  case (2 s)
  then show ?case by simp
next
  case (3 w s)
  then have "t = drop (length w) s" by (simp split: if_splits)
  then show ?case by (simp add: suffix_drop)
next
  case (4 s)
  then obtain x where "s = x # t" by (cases s) (auto split: if_splits)
  then show ?case by (simp add: suffix_ConsI)
next
  case (5 s)
  then obtain x where "s = x # t" by (cases s) (auto split: if_splits)
  then show ?case by (simp add: suffix_ConsI)
next
  case (6 a b s)
  from 6(3) obtain u where u: "u \<in> set (rx_rests a s)" and t: "t \<in> set (rx_rests b u)"
    by auto
  from 6(1)[OF u] 6(2)[OF u t] show ?case by (rule suffix_order.trans[rotated])
next
  case (7 a b s)
  then show ?case by auto
next
  case (8 a s)
  show ?case
  proof (cases "t = s")
    case True then show ?thesis by simp
  next
    case False
    from 8(3) have "t \<in> set (concat (map (\<lambda>t. if length t < length s
                        then rx_rests (Star a) t else []) (rx_rests a s)) @ [s])"
      by (subst (asm) rx_rests.simps(8))
    with False obtain u where u: "u \<in> set (rx_rests a s)" and l: "length u < length s"
      and t: "t \<in> set (rx_rests (Star a) u)"
      by (auto split: if_splits)
    from 8(1)[OF u] 8(2)[OF u l t] show ?thesis by (rule suffix_order.trans[rotated])
  qed
next
  case (9 n a s)
  then show ?case by simp
qed

lemma rx_run_caps_capless:
  "capless r \<Longrightarrow> p \<in> set (rx_run r s c) \<Longrightarrow> snd p = c"
proof (induction r s c arbitrary: p rule: rx_run.induct)
  case (1 s c)
  then show ?case by simp
next
  case (2 s c)
  then show ?case by simp
next
  case (3 w s c)
  from 3(2) show ?case by (auto split: if_splits)
next
  case (4 s c)
  from 4(2) show ?case by (cases s) (auto split: if_splits)
next
  case (5 s c)
  from 5(2) show ?case by (cases s) (auto split: if_splits)
next
  case (6 a b s c)
  from 6(4) obtain u where u: "u \<in> set (rx_run a s c)"
    and p: "p \<in> set (rx_run b (fst u) (snd u))"
    by auto
  from 6(3) have ca: "capless a" and cb: "capless b" by simp_all
  from 6(1)[OF ca u] have "snd u = c" .
  with 6(2)[OF u cb p] show ?case by simp
next
  case (7 a b s c)
  from 7(3) have ca: "capless a" and cb: "capless b" by simp_all
  from 7(4) have "p \<in> set (rx_run a s c) \<or> p \<in> set (rx_run b s c)" by simp
  with 7(1)[OF ca] 7(2)[OF cb] show ?case by blast
next
  case (8 a s c)
  show ?case
  proof (cases "p = (s, c)")
    case True then show ?thesis by simp
  next
    case False
    from 8(4) have "p \<in> set (concat (map (\<lambda>p. if length (fst p) < length s
                        then rx_run (Star a) (fst p) (snd p) else []) (rx_run a s c)) @ [(s, c)])"
      by (subst (asm) rx_run.simps(8))
    with False obtain u where u: "u \<in> set (rx_run a s c)" and l: "length (fst u) < length s"
      and p: "p \<in> set (rx_run (Star a) (fst u) (snd u))"
      by (auto split: if_splits)
    from 8(3) have ca: "capless a" by simp
    from 8(1)[OF ca u] have "snd u = c" .
    with 8(2)[OF u l 8(3) p] show ?thesis by simp
  qed
next
  case (9 n a s c)
  then show ?case by simp
qed

lemma rx_match_Some:
  "rx_match r s = Some m \<Longrightarrow> \<exists>t rest. suffix t s \<and> (rest, m) \<in> set (rx_run r t [])"
proof (induction s)
  case Nil
  then obtain p ps where "rx_run r [] [] = p # ps" and "snd p = m"
    by (auto split: list.splits)
  then have "(fst p, m) \<in> set (rx_run r [] [])" by auto
  then show ?case by (meson suffix_order.refl)
next
  case (Cons x s)
  show ?case
  proof (cases "rx_run r (x # s) []")
    case Nil
    with Cons.prems have "rx_match r s = Some m" by simp
    from Cons.IH[OF this] show ?thesis by (meson suffix_ConsI)
  next
    case (Cons p ps)
    with Cons.prems have "snd p = m" by simp
    with Cons have "(fst p, m) \<in> set (rx_run r (x # s) [])" by auto
    then show ?thesis by (meson suffix_order.refl)
  qed
qed

lemma rx_match_found:
  "suffix t s \<Longrightarrow> rx_rests r t \<noteq> [] \<Longrightarrow> rx_match r s \<noteq> None"
proof (induction s)
  case Nil
  then have "t = []" by simp
  with Nil have "rx_run r [] [] \<noteq> []" using rx_run_rests[of r "[]" "[]"] by auto
  then show ?case by (auto split: list.splits)
next
  case (Cons x s)
  show ?case
  proof (cases "rx_run r (x # s) []")
    case Nil
    then have "rx_rests r (x # s) = []" using rx_run_rests[of r "x # s" "[]"] by simp
    with Cons.prems have "t \<noteq> x # s" by auto
    with Cons.prems have "suffix t s" by (auto simp: suffix_Cons)
    with Cons.IH Cons.prems Nil show ?thesis by simp
  next
    case (Cons p ps) then show ?thesis by simp
  qed
qed

lemma rx_rests_Seq:
  assumes "rx_rests (Seq a b) s \<noteq> []"
  shows "\<exists>t. suffix t s \<and> rx_rests b t \<noteq> []"
proof -
  from assms obtain t where "t \<in> set (rx_rests a s)" and "rx_rests b t \<noteq> []"
    by auto
  then show ?thesis using rx_rests_suffix by blast
qed

lemma run_Seq:
  "p \<in> set (rx_run (Seq a b) s c)
     \<Longrightarrow> \<exists>u\<in>set (rx_run a s c). p \<in> set (rx_run b (fst u) (snd u))"
  by simp

lemma rests_Seq_mem:
  "t \<in> set (rx_rests (Seq a b) s)
     \<Longrightarrow> \<exists>u\<in>set (rx_rests a s). t \<in> set (rx_rests b u)"
  by simp

lemma rests_Cap: "rx_rests (Seq (Cap n a) b) s = rx_rests (Seq a b) s"
  by simp

lemma digit_not_special:
  assumes "is_digit d"
  shows "\<not> is_space d" and "d \<noteq> CHR ''-''" and "d \<noteq> CHR ''+''" and "d \<noteq> CHR ''x''"
    and "d \<noteq> CHR ''X''"
  using assms by (auto simp: is_digit_def is_space_def)

lemma parseInt_digits:
  assumes "is_digit d" and "list_all is_digit ds"
  shows "parseInt (d # ds) = Num (of_int (decimal (d # ds)))"
proof -
  have all: "takeWhile is_digit (d # ds) = d # ds"
    using assms by (simp add: list_all_iff)
  have nohex: "\<not> prefix ''0x'' (d # ds)" "\<not> prefix ''0X'' (d # ds)"
    using assms digit_not_special(4,5) by (cases ds; auto)+
  have dw: "dropWhile is_space (d # ds) = d # ds"
    using digit_not_special[OF assms(1)] by simp
  have ss: "strip_sign (d # ds) = (1, d # ds)"
    using digit_not_special[OF assms(1)] by (simp add: strip_sign_def)
  show ?thesis
    unfolding parseInt_def dw ss Let_def prod.case
    by (simp only: nohex all simp_thms if_False list.simps mult_1)
qed

lemma rests_Star_mem:
  "t \<in> set (rx_rests (Star a) s) \<longleftrightarrow>
     t = s \<or> (\<exists>u\<in>set (rx_rests a s). length u < length s \<and> t \<in> set (rx_rests (Star a) u))"
  by (subst rx_rests.simps(8)) (auto split: if_splits)

lemma rests_Digit_mem: "u \<in> set (rx_rests Digit s) \<longleftrightarrow> (\<exists>x. s = x # u \<and> is_digit x)"
  by (cases s) auto

lemma rests_Star_Digit:
  "t \<in> set (rx_rests (Star Digit) s) \<Longrightarrow> \<exists>ds. s = ds @ t \<and> list_all is_digit ds"
proof (induction s)
  case Nil
  from rests_Star_mem[THEN iffD1, OF Nil] have "t = []" by simp
  then show ?case by simp
next
  case (Cons x s)
  from rests_Star_mem[THEN iffD1, OF Cons.prems]
  have "t = x # s \<or> (is_digit x \<and> t \<in> set (rx_rests (Star Digit) s))"
    by (auto simp: rests_Digit_mem simp del: rx_rests.simps)
  then show ?case
  proof
    assume "t = x # s" then show ?thesis by simp
  next
    assume h: "is_digit x \<and> t \<in> set (rx_rests (Star Digit) s)"
    with Cons.IH obtain ds where "s = ds @ t" and "list_all is_digit ds" by blast
    with h have "x # s = (x # ds) @ t \<and> list_all is_digit (x # ds)" by simp
    then show ?thesis by blast
  qed
qed

lemma rests_digits:
  assumes "t \<in> set (rx_rests digits s)"
  shows "\<exists>d ds. s = d # ds @ t \<and> is_digit d \<and> list_all is_digit ds"
proof -
  from assms have "t \<in> set (rx_rests (Seq Digit (Star Digit)) s)"
    by (simp only: digits_def Plus_def)
  from rests_Seq_mem[OF this] obtain u where u: "u \<in> set (rx_rests Digit s)"
    and t: "t \<in> set (rx_rests (Star Digit) u)"
    by blast
  from u obtain d where d: "s = d # u" "is_digit d"
    unfolding rests_Digit_mem by blast
  from rests_Star_Digit[OF t] obtain ds where "u = ds @ t" "list_all is_digit ds" by blast
  with d show ?thesis by simp
qed

lemma run_Cap:
  assumes "p \<in> set (rx_run (Cap n a) s c)"
  shows "fst p \<in> set (rx_rests a s)
         \<and> map_of (snd p) n = Some (take (length s - length (fst p)) s)"
proof -
  from assms obtain u where u: "u \<in> set (rx_run a s c)"
    and p: "p = (fst u, (n, take (length s - length (fst u)) s) # snd u)"
    by auto
  have "fst u \<in> set (map fst (rx_run a s c))"
    unfolding set_map using u by (rule imageI)
  then have "fst u \<in> set (rx_rests a s)" by (simp only: rx_run_rests)
  with p show ?thesis by simp
qed

lemma capless_credits_word: "capless (Seq credits_word Eps)"
  by (simp add: credits_word_def seqs_def ws_def Opt_def)

lemma credits_rule_regex:
  "fst (creditRegexes ! 0) = Seq (Cap 1 digits) (Seq credits_word Eps)"
  by (simp add: creditRegexes_def seqs_def)

lemma credits_group:
  assumes "rx_match (fst (creditRegexes ! 0)) s = Some m"
  shows "\<exists>n. parseInt (match_group m 1) = Num n"
proof -
  from rx_match_Some[OF assms] obtain t rest where
    r: "(rest, m) \<in> set (rx_run (Seq (Cap 1 digits) (Seq credits_word Eps)) t [])"
    unfolding credits_rule_regex by blast
  from run_Seq[OF this] obtain u where u: "u \<in> set (rx_run (Cap 1 digits) t [])"
    and b: "(rest, m) \<in> set (rx_run (Seq credits_word Eps) (fst u) (snd u))"
    by blast
  from rx_run_caps_capless[OF capless_credits_word b] have m: "m = snd u" by simp
  from run_Cap[OF u] have f: "fst u \<in> set (rx_rests digits t)"
    and g: "map_of m 1 = Some (take (length t - length (fst u)) t)"
    by (simp_all add: m)
  from rests_digits[OF f] obtain d ds where
    t: "t = d # ds @ fst u" and d: "is_digit d" "list_all is_digit ds" by blast
  have len: "length t - length (fst u) = Suc (length ds)"
    by (subst t) simp
  have "take (Suc (length ds)) t = d # ds"
    by (subst t) simp
  then have "take (length t - length (fst u)) t = d # ds"
    by (simp only: len)
  with g have "match_group m 1 = d # ds" by (simp add: match_group_def)
  with parseInt_digits[OF d] show ?thesis by simp
qed

lemma credits_between_regex:
  "fst (creditRegexes ! 1) =
     Seq (words [''between'', ''from''])
      (Seq ws (Seq (Cap 1 digits) (Seq ws (Seq (words [''and'', ''to'', ''-''])
        (Seq ws (Seq (Cap 2 digits) (Seq credits_word Eps)))))))"
  by (simp add: creditRegexes_def seqs_def)

lemma suffix_rests_Seq:
  assumes "suffix t s" and "rx_rests (Seq a b) t \<noteq> []"
  shows "\<exists>u. suffix u s \<and> rx_rests b u \<noteq> []"
  using rx_rests_Seq[OF assms(2)] assms(1) by (meson suffix_order.trans)

lemma credits_between_is_shadowed:
  assumes "rx_match (fst (creditRegexes ! 1)) s = Some m"
  shows "rx_match (fst (creditRegexes ! 0)) s \<noteq> None"
proof -
  from rx_match_Some[OF assms] obtain t rest where t: "suffix t s"
    and r: "(rest, m) \<in> set (rx_run (fst (creditRegexes ! 1)) t [])" by blast
  have "fst (rest, m) \<in> set (map fst (rx_run (fst (creditRegexes ! 1)) t []))"
    unfolding set_map using r by (rule imageI)
  then have "rest \<in> set (rx_rests (fst (creditRegexes ! 1)) t)"
    by (simp only: rx_run_rests fst_conv)
  then have "rx_rests (fst (creditRegexes ! 1)) t \<noteq> []"
    by (cases "rx_rests (fst (creditRegexes ! 1)) t") simp_all
  then have 0: "rx_rests (Seq (words [''between'', ''from''])
      (Seq ws (Seq (Cap 1 digits) (Seq ws (Seq (words [''and'', ''to'', ''-''])
        (Seq ws (Seq (Cap 2 digits) (Seq credits_word Eps)))))))) t \<noteq> []"
    unfolding credits_between_regex .
  from suffix_rests_Seq[OF t 0] obtain t1 where 1: "suffix t1 s"
    "rx_rests (Seq ws (Seq (Cap 1 digits) (Seq ws (Seq (words [''and'', ''to'', ''-''])
        (Seq ws (Seq (Cap 2 digits) (Seq credits_word Eps))))))) t1 \<noteq> []" by blast
  from suffix_rests_Seq[OF 1] obtain t2 where 2: "suffix t2 s"
    "rx_rests (Seq (Cap 1 digits) (Seq ws (Seq (words [''and'', ''to'', ''-''])
        (Seq ws (Seq (Cap 2 digits) (Seq credits_word Eps)))))) t2 \<noteq> []" by blast
  from suffix_rests_Seq[OF 2] obtain t3 where 3: "suffix t3 s"
    "rx_rests (Seq ws (Seq (words [''and'', ''to'', ''-''])
        (Seq ws (Seq (Cap 2 digits) (Seq credits_word Eps))))) t3 \<noteq> []" by blast
  from suffix_rests_Seq[OF 3] obtain t4 where 4: "suffix t4 s"
    "rx_rests (Seq (words [''and'', ''to'', ''-''])
        (Seq ws (Seq (Cap 2 digits) (Seq credits_word Eps)))) t4 \<noteq> []" by blast
  from suffix_rests_Seq[OF 4] obtain t5 where 5: "suffix t5 s"
    "rx_rests (Seq ws (Seq (Cap 2 digits) (Seq credits_word Eps))) t5 \<noteq> []" by blast
  from suffix_rests_Seq[OF 5] obtain t6 where 6: "suffix t6 s"
    "rx_rests (Seq (Cap 2 digits) (Seq credits_word Eps)) t6 \<noteq> []" by blast
  from 6(2) have "rx_rests (Seq (Cap 1 digits) (Seq credits_word Eps)) t6 \<noteq> []"
    unfolding rests_Cap .
  with 6(1) show ?thesis
    unfolding credits_rule_regex by (rule rx_match_found)
qed

lemma first_rule_first:
  assumes "rules \<noteq> []" and "rx_match (fst (rules ! 0)) t = Some m"
  shows "first_rule rules t f = snd (rules ! 0) m f"
proof -
  from assms(1) obtain r h rest where "rules = (r, h) # rest" by (cases rules) auto
  with assms(2) show ?thesis by simp
qed

lemma first_rule_third:
  assumes "2 < length rules"
    and "rx_match (fst (rules ! 0)) t = None"
    and "rx_match (fst (rules ! 1)) t = None"
    and "rx_match (fst (rules ! 2)) t = Some m"
  shows "first_rule rules t f = snd (rules ! 2) m f"
proof -
  from assms(1) obtain x0 x1 x2 rest where r: "rules = x0 # x1 # x2 # rest"
    by (cases rules; cases "tl rules"; cases "tl (tl rules)") auto
  obtain r0 h0 r1 h1 r2 h2 where x: "x0 = (r0, h0)" "x1 = (r1, h1)" "x2 = (r2, h2)"
    by (cases x0; cases x1; cases x2) auto
  from assms(2-4) show ?thesis by (simp add: r x)
qed

lemma first_rule_keeps:
  assumes "list_all (\<lambda>x. \<forall>m g. sel (snd x m g) = sel g) rules"
  shows "sel (first_rule rules t f) = sel f"
  using assms by (induction rules) (auto split: option.splits)

lemma rating_rules_keep_fee:
  "min_fee (first_rule ratingRegexes t f) = min_fee f"
  "max_fee (first_rule ratingRegexes t f) = max_fee f"
  by (rule first_rule_keeps; simp add: ratingRegexes_def Let_def)+

lemma credit_rules_keep_fee:
  "min_fee (first_rule creditRegexes t f) = min_fee f"
  "max_fee (first_rule creditRegexes t f) = max_fee f"
  by (rule first_rule_keeps; simp add: creditRegexes_def Let_def)+

lemma credit_rules_keep_rating:
  "min_rating (first_rule creditRegexes t f) = min_rating f"
  "max_rating (first_rule creditRegexes t f) = max_rating f"
  by (rule first_rule_keeps; simp add: creditRegexes_def Let_def)+

lemma js_less_min_max:
  assumes "js_less y x"
  shows "Math_min2 x y = y" and "Math_max2 x y = x"
  using assms by (cases x; cases y; simp add: Math_min2_def Math_max2_def)+

lemma fee_between_handler:
  "snd (feeRegexes ! 2) m f
     = f\<lparr>min_fee := Some (Math_min2 (fee_of m 1) (fee_of m 2)),
         max_fee := Some (Math_max2 (fee_of m 1) (fee_of m 2))\<rparr>"
  by (simp add: feeRegexes_def Let_def)

lemma rating_between_handler:
  "snd (ratingRegexes ! 2) m f
     = f\<lparr>min_rating := Some (Math_min2 (parseFloat (match_group m 1)) (parseFloat (match_group m 2))),
         max_rating := Some (Math_max2 (parseFloat (match_group m 1)) (parseFloat (match_group m 2)))\<rparr>"
  by (simp add: ratingRegexes_def Let_def)

lemma credits_first_handler:
  "snd (creditRegexes ! 0) m f
     = f\<lparr>min_credits := Some (parseInt (match_group m 1)), max_credits := Some (parseInt (match_group m 1))\<rparr>"
  by (simp add: creditRegexes_def Let_def)

lemma rules_lengths:
  "length feeRegexes = 4" "length ratingRegexes = 4" "length creditRegexes = 4"
  by (simp_all add: feeRegexes_def ratingRegexes_def creditRegexes_def)

text \<open>The fields of the result that the three rule families decide.\<close>

lemma parse_fee_fields:
  "min_fee (parseNaturalLanguageQuery text)
     = min_fee (first_rule feeRegexes (trim (toLowerCase text))
         (case first_entry levelPatterns (trim (toLowerCase text)) of
            Some lvl \<Rightarrow> (case first_entry deliveryModePatterns (trim (toLowerCase text)) of
                           Some mode \<Rightarrow> empty_filters\<lparr>delivery_mode := Some mode\<rparr>
                         | None \<Rightarrow> empty_filters)\<lparr>level := Some lvl\<rparr>
          | None \<Rightarrow> (case first_entry deliveryModePatterns (trim (toLowerCase text)) of
                           Some mode \<Rightarrow> empty_filters\<lparr>delivery_mode := Some mode\<rparr>
                         | None \<Rightarrow> empty_filters)))"
  "max_fee (parseNaturalLanguageQuery text)
     = max_fee (first_rule feeRegexes (trim (toLowerCase text))
         (case first_entry levelPatterns (trim (toLowerCase text)) of
            Some lvl \<Rightarrow> (case first_entry deliveryModePatterns (trim (toLowerCase text)) of
                           Some mode \<Rightarrow> empty_filters\<lparr>delivery_mode := Some mode\<rparr>
                         | None \<Rightarrow> empty_filters)\<lparr>level := Some lvl\<rparr>
          | None \<Rightarrow> (case first_entry deliveryModePatterns (trim (toLowerCase text)) of
                           Some mode \<Rightarrow> empty_filters\<lparr>delivery_mode := Some mode\<rparr>
                         | None \<Rightarrow> empty_filters)))"
  by (simp_all add: parseNaturalLanguageQuery_def Let_def rating_rules_keep_fee
      credit_rules_keep_fee split: option.splits)

lemma parse_fee_stage:
  "\<exists>f0. min_fee (parseNaturalLanguageQuery text)
            = min_fee (first_rule feeRegexes (trim (toLowerCase text)) f0)
       \<and> max_fee (parseNaturalLanguageQuery text)
            = max_fee (first_rule feeRegexes (trim (toLowerCase text)) f0)"
  using parse_fee_fields[of "text"] by blast

lemma parse_rating_stage:
  "\<exists>f0. min_rating (parseNaturalLanguageQuery text)
            = min_rating (first_rule ratingRegexes (trim (toLowerCase text)) f0)
       \<and> max_rating (parseNaturalLanguageQuery text)
            = max_rating (first_rule ratingRegexes (trim (toLowerCase text)) f0)"
proof -
  define f0 where "f0 = first_rule feeRegexes (trim (toLowerCase text))
         (case first_entry levelPatterns (trim (toLowerCase text)) of
            Some lvl \<Rightarrow> (case first_entry deliveryModePatterns (trim (toLowerCase text)) of
                           Some mode \<Rightarrow> empty_filters\<lparr>delivery_mode := Some mode\<rparr>
                         | None \<Rightarrow> empty_filters)\<lparr>level := Some lvl\<rparr>
          | None \<Rightarrow> (case first_entry deliveryModePatterns (trim (toLowerCase text)) of
                           Some mode \<Rightarrow> empty_filters\<lparr>delivery_mode := Some mode\<rparr>
                         | None \<Rightarrow> empty_filters))"
  have "min_rating (parseNaturalLanguageQuery text)
            = min_rating (first_rule ratingRegexes (trim (toLowerCase text)) f0)
       \<and> max_rating (parseNaturalLanguageQuery text)
            = max_rating (first_rule ratingRegexes (trim (toLowerCase text)) f0)"
    unfolding f0_def
    by (simp add: parseNaturalLanguageQuery_def Let_def credit_rules_keep_rating
        split: option.splits)
  then show ?thesis by blast
qed

lemma parse_credits_stage:
  "\<exists>f0. min_credits (parseNaturalLanguageQuery text)
            = min_credits (first_rule creditRegexes (trim (toLowerCase text)) f0)
       \<and> max_credits (parseNaturalLanguageQuery text)
            = max_credits (first_rule creditRegexes (trim (toLowerCase text)) f0)"
proof -
  define f0 where "f0 = first_rule ratingRegexes (trim (toLowerCase text))
      (first_rule feeRegexes (trim (toLowerCase text))
         (case first_entry levelPatterns (trim (toLowerCase text)) of
            Some lvl \<Rightarrow> (case first_entry deliveryModePatterns (trim (toLowerCase text)) of
                           Some mode \<Rightarrow> empty_filters\<lparr>delivery_mode := Some mode\<rparr>
                         | None \<Rightarrow> empty_filters)\<lparr>level := Some lvl\<rparr>
          | None \<Rightarrow> (case first_entry deliveryModePatterns (trim (toLowerCase text)) of
                           Some mode \<Rightarrow> empty_filters\<lparr>delivery_mode := Some mode\<rparr>
                         | None \<Rightarrow> empty_filters)))"
  have "min_credits (parseNaturalLanguageQuery text)
            = min_credits (first_rule creditRegexes (trim (toLowerCase text)) f0)
       \<and> max_credits (parseNaturalLanguageQuery text)
            = max_credits (first_rule creditRegexes (trim (toLowerCase text)) f0)"
    unfolding f0_def
    by (simp add: parseNaturalLanguageQuery_def Let_def split: option.splits)
  then show ?thesis by blast
qed

lemma credits_between_handler:
  "snd (creditRegexes ! 1) m f
     = f\<lparr>min_credits := Some (Math_min2 (parseInt (match_group m 1)) (parseInt (match_group m 2))),
         max_credits := Some (Math_max2 (parseInt (match_group m 1)) (parseInt (match_group m 2)))\<rparr>"
  by (simp add: creditRegexes_def Let_def)

text \<open>
  The \<open>between\<close> pattern of the fee and of the rating is the third one tried. When it is
  the one that matches and its first number is above its second, the minimum is the
  second number and the maximum the first.
\<close>

lemma fee_and_rating_between_bounds_are_ordered:
  "(rx_match (fst (feeRegexes ! 0)) (trim (toLowerCase text)) = None
      \<and> rx_match (fst (feeRegexes ! 1)) (trim (toLowerCase text)) = None
      \<and> rx_match (fst (feeRegexes ! 2)) (trim (toLowerCase text)) = Some m
      \<and> js_less (fee_of m 2) (fee_of m 1)
     \<longrightarrow> min_fee (parseNaturalLanguageQuery text) = Some (fee_of m 2)
         \<and> max_fee (parseNaturalLanguageQuery text) = Some (fee_of m 1))
   \<and> (rx_match (fst (ratingRegexes ! 0)) (trim (toLowerCase text)) = None
      \<and> rx_match (fst (ratingRegexes ! 1)) (trim (toLowerCase text)) = None
      \<and> rx_match (fst (ratingRegexes ! 2)) (trim (toLowerCase text)) = Some m
      \<and> js_less (parseFloat (match_group m 2)) (parseFloat (match_group m 1))
     \<longrightarrow> min_rating (parseNaturalLanguageQuery text) = Some (parseFloat (match_group m 2))
         \<and> max_rating (parseNaturalLanguageQuery text) = Some (parseFloat (match_group m 1)))"
proof (intro conjI impI)
  assume h: "rx_match (fst (feeRegexes ! 0)) (trim (toLowerCase text)) = None
      \<and> rx_match (fst (feeRegexes ! 1)) (trim (toLowerCase text)) = None
      \<and> rx_match (fst (feeRegexes ! 2)) (trim (toLowerCase text)) = Some m
      \<and> js_less (fee_of m 2) (fee_of m 1)"
  from parse_fee_stage[of "text"] obtain f0 where
    s: "min_fee (parseNaturalLanguageQuery text)
            = min_fee (first_rule feeRegexes (trim (toLowerCase text)) f0)"
       "max_fee (parseNaturalLanguageQuery text)
            = max_fee (first_rule feeRegexes (trim (toLowerCase text)) f0)" by blast
  have "first_rule feeRegexes (trim (toLowerCase text)) f0 = snd (feeRegexes ! 2) m f0"
    using h by (intro first_rule_third) (simp_all add: rules_lengths)
  with h show "min_fee (parseNaturalLanguageQuery text) = Some (fee_of m 2)"
    and "max_fee (parseNaturalLanguageQuery text) = Some (fee_of m 1)"
    by (simp_all add: s fee_between_handler js_less_min_max)
next
  assume h: "rx_match (fst (ratingRegexes ! 0)) (trim (toLowerCase text)) = None
      \<and> rx_match (fst (ratingRegexes ! 1)) (trim (toLowerCase text)) = None
      \<and> rx_match (fst (ratingRegexes ! 2)) (trim (toLowerCase text)) = Some m
      \<and> js_less (parseFloat (match_group m 2)) (parseFloat (match_group m 1))"
  from parse_rating_stage[of "text"] obtain f0 where
    s: "min_rating (parseNaturalLanguageQuery text)
            = min_rating (first_rule ratingRegexes (trim (toLowerCase text)) f0)"
       "max_rating (parseNaturalLanguageQuery text)
            = max_rating (first_rule ratingRegexes (trim (toLowerCase text)) f0)" by blast
  have "first_rule ratingRegexes (trim (toLowerCase text)) f0 = snd (ratingRegexes ! 2) m f0"
    using h by (intro first_rule_third) (simp_all add: rules_lengths)
  with h show "min_rating (parseNaturalLanguageQuery text) = Some (parseFloat (match_group m 2))"
    and "max_rating (parseNaturalLanguageQuery text) = Some (parseFloat (match_group m 1))"
    by (simp_all add: s rating_between_handler js_less_min_max)
qed

lemma reversed_fee_and_rating_examples:
  "min_fee (parseNaturalLanguageQuery ''between 80000 and 40000'') = Some (Num 40000)"
  "max_fee (parseNaturalLanguageQuery ''between 80000 and 40000'') = Some (Num 80000)"
  "min_rating (parseNaturalLanguageQuery ''rated between 5 and 2.5'') = Some (Num (5 / 2))"
  "max_rating (parseNaturalLanguageQuery ''rated between 5 and 2.5'') = Some (Num 5)"
  by code_simp+

text \<open>
  The \<open>between\<close> pattern of the credits is the second one tried, after \<open>N credits\<close>. A text
  that the \<open>between\<close> pattern matches ends its match with a number and the word, so the
  first pattern matches the text too, and wins: both keys are the one number that the
  first pattern reads, and the handler that orders the two bounds is never applied.
\<close>

lemma credits_between_is_never_applied:
  assumes "rx_match (fst (creditRegexes ! 1)) (trim (toLowerCase text)) = Some m"
  shows "\<exists>m1. rx_match (fst (creditRegexes ! 0)) (trim (toLowerCase text)) = Some m1
           \<and> min_credits (parseNaturalLanguageQuery text) = Some (parseInt (match_group m1 1))
           \<and> max_credits (parseNaturalLanguageQuery text) = Some (parseInt (match_group m1 1))"
proof -
  from credits_between_is_shadowed[OF assms] obtain m1 where
    m1: "rx_match (fst (creditRegexes ! 0)) (trim (toLowerCase text)) = Some m1" by blast
  from parse_credits_stage[of "text"] obtain f0 where
    s: "min_credits (parseNaturalLanguageQuery text)
            = min_credits (first_rule creditRegexes (trim (toLowerCase text)) f0)"
       "max_credits (parseNaturalLanguageQuery text)
            = max_credits (first_rule creditRegexes (trim (toLowerCase text)) f0)" by blast
  have ne: "creditRegexes \<noteq> []" using rules_lengths(3) by auto
  have "first_rule creditRegexes (trim (toLowerCase text)) f0 = snd (creditRegexes ! 0) m1 f0"
    using ne m1 by (rule first_rule_first)
  then have "min_credits (parseNaturalLanguageQuery text) = Some (parseInt (match_group m1 1))
              \<and> max_credits (parseNaturalLanguageQuery text) = Some (parseInt (match_group m1 1))"
    by (simp add: s credits_first_handler del: One_nat_def)
  with m1 show ?thesis by blast
qed


subsection \<open>Claims on the parser of the free-text route\<close>

text \<open>
  C2: for the text \<open>online postgraduate management courses rated above 4\<close> the parser
  is to return the delivery mode \<open>online\<close>, the level \<open>PG\<close>, the department
  \<open>Management\<close> and the minimum rating 4, and no other key. The code returns these
  four and two more keys: the second fee pattern reads \<open>above 4\<close> as a minimum fee of 4,
  and the word \<open>above\<close> is left as the free-text residue \<open>q\<close>.
\<close>

theorem rated_above_text_is_parsed_with_fee_and_residue:
  "parseNaturalLanguageQuery ''online postgraduate management courses rated above 4''
     = \<lparr>q = Some ''above'', department = Some ''Management'', level = Some ''PG'',
        delivery_mode = Some ''online'', year_offered = None,
        min_fee = Some (Num 4), max_fee = None,
        min_rating = Some (Num 4), max_rating = None,
        min_credits = None, max_credits = None\<rparr>"
  by code_simp

text \<open>
  C7: a text with \<open>between X and Y\<close> and \<open>X\<close> above \<open>Y\<close> is to set the minimum of the
  category to \<open>Y\<close> and the maximum to \<open>X\<close>. The code does so for the fee and for the
  rating, and its handler for the credits would, but that handler is never reached: for
  \<open>between 10 and 4 credits\<close> the first credits pattern reads \<open>4 credits\<close> and both keys
  are 4, where the claim has the range from 4 to 10. The same text has no currency, which
  the fee patterns do not ask for, so it sets the fee range from 4 to 10 as well; the
  department comes from the letters \<open>it\<close> of \<open>credits\<close>, and \<open>between\<close> is the residue.
\<close>

theorem between_credits_are_one_number:
  "parseNaturalLanguageQuery ''between 10 and 4 credits''
     = \<lparr>q = Some ''between'', department = Some ''Computer Science'', level = None,
        delivery_mode = None, year_offered = None,
        min_fee = Some (Num 4), max_fee = Some (Num 10),
        min_rating = None, max_rating = None,
        min_credits = Some (Num 4), max_credits = Some (Num 4)\<rparr>"
  by code_simp

end
